theory Spec2Isabelle
  imports Complex_Main
begin

section \<open>Strings\<close>

text \<open>
  Strings are character lists. \<open>lower\<close> is \<^verbatim>\<open>str.lower()\<close> on the ASCII letters,
  \<open>contains hay needle\<close> is Python's \<^verbatim>\<open>needle in hay\<close> (contiguous substring).
\<close>

fun translate :: "string \<Rightarrow> string \<Rightarrow> char \<Rightarrow> char" where
  "translate (k # ks) (v # vs) c = (if c = k then v else translate ks vs c)"
| "translate _ _ c = c"

definition lower_char :: "char \<Rightarrow> char" where
  "lower_char c = translate ''ABCDEFGHIJKLMNOPQRSTUVWXYZ'' ''abcdefghijklmnopqrstuvwxyz'' c"

definition lower :: "string \<Rightarrow> string" where
  "lower s = map lower_char s"

fun startswith :: "string \<Rightarrow> string \<Rightarrow> bool" where
  "startswith s [] = True"
| "startswith [] (n # ns) = False"
| "startswith (c # cs) (n # ns) = (c = n \<and> startswith cs ns)"

fun contains :: "string \<Rightarrow> string \<Rightarrow> bool" where
  "contains [] n = (n = [])"
| "contains (c # cs) n = (startswith (c # cs) n \<or> contains cs n)"

text \<open>
  Python's truthiness is written out where a guard uses it: \<^verbatim>\<open>None\<close>, \<^verbatim>\<open>0\<close>, the
  empty string and the empty list are falsy.
\<close>

section \<open>Data model (models/listing.py)\<close>

datatype ListingStatus =
  NEW | PREFILTER_PASS | PREFILTER_FAIL | RESEARCHING | COMPLETED | FAILED

text \<open>A \<^verbatim>\<open>datetime\<close>: microseconds since the epoch, naive or timezone-aware.\<close>

datatype pydatetime = Naive int | Aware int

text \<open>The values that occur in a \<^verbatim>\<open>raw_data\<close> dictionary.\<close>

datatype pyval =
  PNone | PBool bool | PInt int | PStr string | PDict "(string \<times> pyval) list"

record BusinessListing =
  listing_id :: string
  source :: string
  title :: string
  description :: "string option"
  price :: "int option"
  revenue :: "int option"
  ebitda :: "int option"
  location :: "string option"
  industry :: "string option"
  url :: "string option"
  posted_date :: "pydatetime option"
  raw_data :: "(string \<times> pyval) list option"

text \<open>
  A row of table \<^verbatim>\<open>listings\<close> (class \<^verbatim>\<open>ListingORM\<close>): the columns of a listing and
  the derived, status and research columns. The two float columns hold the exact
  quotient: Python's \<^verbatim>\<open>int / int\<close> is the correctly rounded value of that quotient, so
  equal quotients are stored as equal floats. Column \<^verbatim>\<open>posted_date\<close> holds the text of
  the datetime, which \<^verbatim>\<open>model_validate\<close> parses back: the row keeps the datetime
  itself. Column \<^verbatim>\<open>status\<close> holds the value of a \<^verbatim>\<open>ListingStatus\<close>.
\<close>

record ListingORM = BusinessListing +
  ebitda_margin :: "rat option"
  asking_multiple :: "rat option"
  status :: ListingStatus
  first_seen_at :: int
  last_updated_at :: int
  processed_at :: "int option"
  research_findings :: "(string \<times> pyval) list option"
  confidence_score :: "rat option"
  scalability_score :: "int option"
  memo :: "string option"

record ListingFilter =
  max_price :: int
  max_days_listed :: "int option"
  preferred_industries :: "string list option"
  excluded_industries :: "string list option"
  excluded_title_keywords :: "string list option"
  franchise_allowed_industries :: "string list option"

definition default_excluded_industries :: "string list" where
  "default_excluded_industries =
     [''retail'', ''food & drink'', ''coffee'', ''cafe'', ''restaurant'', ''pub'', ''bar'',
      ''accommodation'', ''tourism'', ''leisure'', ''takeaway'', ''hospitality'',
      ''franchise'', ''master franchise'', ''driving school'', ''driving'',
      ''beauty'', ''hair'', ''spa'', ''massage'', ''pilates'', ''gym'', ''fitness'', ''f45'',
      ''mechanic'', ''automotive'', ''tyre'', ''car detailing'',
      ''electrical'', ''electrical services'', ''handyman'', ''home services'',
      ''cleaning'', ''maintenance'', ''dry cleaning'', ''laundromat'', ''laundry'',
      ''fencing'', ''sports'', ''pest control'',
      ''taxi'', ''transport'', ''chauffeur'', ''courier'', ''freight'', ''truck'',
      ''pet grooming'', ''dog grooming'',
      ''garden'', ''lawn'', ''mowing'', ''nursery'', ''landscaping'', ''removals'',
      ''air conditioning'', ''air-con'', ''carpet'', ''flooring'', ''refund'']"

definition default_excluded_title_keywords :: "string list" where
  "default_excluded_title_keywords =
     [''franchise'', ''pest control'', ''driving school'', ''driving'', ''massage'',
      ''pilates'', ''gym'', ''fitness'', ''f45'', ''beauty'', ''hair salon'',
      ''dry cleaning'', ''laundromat'', ''laundry'', ''handyman'', ''garden'', ''lawn'',
      ''mowing'', ''nursery'', ''courier'', ''taxi'', ''refund'', ''dog grooming'',
      ''pet grooming'']"

definition default_franchise_allowed_industries :: "string list" where
  "default_franchise_allowed_industries =
     [''mortgage'', ''finance'', ''insurance'', ''legal'', ''accounting'',
      ''business services'', ''real estate'']"

text \<open>\<^verbatim>\<open>ListingFilter(max_price=m)\<close>: every other field takes its default.\<close>

definition ListingFilter_with_max_price :: "int \<Rightarrow> ListingFilter" where
  "ListingFilter_with_max_price m =
     \<lparr> max_price = m, max_days_listed = Some 60, preferred_industries = None,
       excluded_industries = Some default_excluded_industries,
       excluded_title_keywords = Some default_excluded_title_keywords,
       franchise_allowed_industries = Some default_franchise_allowed_industries \<rparr>"

definition default_ListingFilter :: ListingFilter where
  "default_ListingFilter = ListingFilter_with_max_price 1000000"

section \<open>Eligibility filter (ListingFilter.evaluate)\<close>

text \<open>
  A failure reason is the f-string that \<^verbatim>\<open>evaluate\<close> appends, kept with the values it
  interpolates; \<open>render\<close> gives its text.
\<close>

datatype reason =
  PriceExceeds int int
| IndustryMatches string string
| TitleContains string
| ListedTooLong int int

definition digit_char :: "nat \<Rightarrow> char" where
  "digit_char d = ''0123456789'' ! d"

fun str_nat :: "nat \<Rightarrow> string" where
  "str_nat n =
     (if n < 10 then [digit_char n] else str_nat (n div 10) @ [digit_char (n mod 10)])"

definition str_int :: "int \<Rightarrow> string" where
  "str_int i = (if i < 0 then CHR ''-'' # str_nat (nat (- i)) else str_nat (nat i))"

text \<open>Thousands separators of the format \<^verbatim>\<open>{:,}\<close>, on the reversed digits.\<close>

fun commas_rev :: "string \<Rightarrow> string" where
  "commas_rev (a # b # c # d # ds) = a # b # c # CHR '','' # commas_rev (d # ds)"
| "commas_rev ds = ds"

definition fmt_commas :: "int \<Rightarrow> string" where
  "fmt_commas i =
     (if i < 0 then CHR ''-'' # rev (commas_rev (rev (str_nat (nat (- i)))))
      else rev (commas_rev (rev (str_nat (nat i)))))"

fun render :: "reason \<Rightarrow> string" where
  "render (PriceExceeds p m) =
     ''Price $'' @ fmt_commas p @ '' exceeds max $'' @ fmt_commas m"
| "render (IndustryMatches ind ex) =
     ''Industry '' @ [CHR 0x27] @ ind @ [CHR 0x27] @ '' matches exclusion ''
       @ [CHR 0x27] @ ex @ [CHR 0x27]"
| "render (TitleContains ex) =
     ''Title contains excluded keyword '' @ [CHR 0x27] @ ex @ [CHR 0x27]"
| "render (ListedTooLong d m) =
     ''Listed '' @ str_int d @ '' days ago (max '' @ str_int m @ '')''"

text \<open>The state of \<^verbatim>\<open>evaluate\<close>: the variables \<^verbatim>\<open>passes\<close> and \<^verbatim>\<open>reasons\<close>.\<close>

type_synonym verdict = "bool \<times> reason list"

definition fail_with :: "reason \<Rightarrow> verdict \<Rightarrow> verdict" where
  "fail_with r v = (False, snd v @ [r])"

definition price_check :: "ListingFilter \<Rightarrow> 'a BusinessListing_scheme \<Rightarrow> verdict \<Rightarrow> verdict" where
  "price_check f l v =
     (case price l of
        None \<Rightarrow> v
      | Some p \<Rightarrow> if p \<noteq> 0 \<and> p > max_price f then fail_with (PriceExceeds p (max_price f)) v else v)"

text \<open>The loop over the excluded industries: the first match, when there is one.\<close>

fun industry_loop :: "string list \<Rightarrow> string \<Rightarrow> reason option" where
  "industry_loop [] ind = None"
| "industry_loop (excluded # rest) ind =
     (if contains (lower ind) (lower excluded) then Some (IndustryMatches ind excluded)
      else industry_loop rest ind)"

definition industry_check :: "ListingFilter \<Rightarrow> 'a BusinessListing_scheme \<Rightarrow> verdict \<Rightarrow> verdict" where
  "industry_check f l v =
     (case (excluded_industries f, industry l) of
        (Some (e # es), Some (c # cs)) \<Rightarrow>
          (case industry_loop (e # es) (c # cs) of None \<Rightarrow> v | Some r \<Rightarrow> fail_with r v)
      | _ \<Rightarrow> v)"

text \<open>
  The loop over the excluded title keywords. A keyword found in the title ends the loop
  with a reason, unless its lowercase form is \<^verbatim>\<open>franchise\<close> and some allowed industry, as
  configured, occurs in the lowercased industry: then the loop goes on
  (\<^verbatim>\<open>continue\<close>).
\<close>

fun title_loop :: "string list \<Rightarrow> string list \<Rightarrow> string \<Rightarrow> string \<Rightarrow> reason option" where
  "title_loop [] allowed title_lower industry_lower = None"
| "title_loop (excluded # rest) allowed title_lower industry_lower =
     (if contains title_lower (lower excluded) then
        (if lower excluded = ''franchise'' \<and> list_ex (\<lambda>a. contains industry_lower a) allowed
         then title_loop rest allowed title_lower industry_lower
         else Some (TitleContains excluded))
      else title_loop rest allowed title_lower industry_lower)"

definition title_check :: "ListingFilter \<Rightarrow> 'a BusinessListing_scheme \<Rightarrow> verdict \<Rightarrow> verdict" where
  "title_check f l v =
     (case (excluded_title_keywords f, title l) of
        (Some (k # ks), c # cs) \<Rightarrow>
          (case title_loop (k # ks)
                  (case franchise_allowed_industries f of None \<Rightarrow> [] | Some al \<Rightarrow> al)
                  (lower (c # cs))
                  (lower (case industry l of None \<Rightarrow> [] | Some i \<Rightarrow> i)) of
             None \<Rightarrow> v
           | Some r \<Rightarrow> fail_with r v)
      | _ \<Rightarrow> v)"

text \<open>
  \<^verbatim>\<open>(datetime.utcnow() - posted).days\<close>: the floor of the difference in days. Subtracting
  an aware datetime from the naive \<^verbatim>\<open>utcnow()\<close> raises \<^verbatim>\<open>TypeError\<close>, which the
  \<^verbatim>\<open>except\<close> clause swallows.
\<close>

definition usec_per_day :: int where
  "usec_per_day = 86400000000"

definition freshness_check ::
  "int \<Rightarrow> ListingFilter \<Rightarrow> 'a BusinessListing_scheme \<Rightarrow> verdict \<Rightarrow> verdict" where
  "freshness_check now f l v =
     (case (max_days_listed f, posted_date l) of
        (Some m, Some (Naive posted)) \<Rightarrow>
          (let days_listed = (now - posted) div usec_per_day
           in if m \<noteq> 0 \<and> days_listed > m then fail_with (ListedTooLong days_listed m) v else v)
      | _ \<Rightarrow> v)"

text \<open>\<open>now\<close> is the reading of \<^verbatim>\<open>datetime.utcnow()\<close> inside \<^verbatim>\<open>evaluate\<close>.\<close>

definition evaluate :: "int \<Rightarrow> ListingFilter \<Rightarrow> 'a BusinessListing_scheme \<Rightarrow> verdict" where
  "evaluate now f l =
     freshness_check now f l (title_check f l (industry_check f l (price_check f l (True, []))))"

section \<open>Dedup and status store (models/repository.py)\<close>

text \<open>
  Table \<^verbatim>\<open>listings\<close> is the list of its rows; column \<^verbatim>\<open>id\<close> is the primary key, so an
  insert of a stored id is refused. \<open>now\<close> is the reading of \<^verbatim>\<open>datetime.utcnow()\<close>.
\<close>

datatype db_error = MultipleResultsFound | IntegrityError

type_synonym table = "ListingORM list"

definition scalar_one_or_none :: "'a list \<Rightarrow> db_error + 'a option" where
  "scalar_one_or_none rs =
     (case rs of [] \<Rightarrow> Inr None | [r] \<Rightarrow> Inr (Some r) | _ \<Rightarrow> Inl MultipleResultsFound)"

definition db_add :: "table \<Rightarrow> ListingORM \<Rightarrow> db_error + table" where
  "db_add db orm =
     (if listing_id orm \<in> set (map listing_id db) then Inl IntegrityError else Inr (db @ [orm]))"

text \<open>The UPDATE of the row that an ORM object stands for, by primary key.\<close>

definition db_commit :: "table \<Rightarrow> ListingORM \<Rightarrow> table" where
  "db_commit db orm = map (\<lambda>r. if listing_id r = listing_id orm then orm else r) db"

definition exists_listing :: "table \<Rightarrow> string \<Rightarrow> string \<Rightarrow> db_error + bool" where
  "exists_listing db lid src =
     (case scalar_one_or_none (filter (\<lambda>r. listing_id r = lid \<and> source r = src) db) of
        Inl e \<Rightarrow> Inl e
      | Inr result \<Rightarrow> Inr (result \<noteq> None))"

definition get_by_id :: "table \<Rightarrow> string \<Rightarrow> db_error + ListingORM option" where
  "get_by_id db lid = scalar_one_or_none (filter (\<lambda>r. listing_id r = lid) db)"

definition get_by_status :: "table \<Rightarrow> ListingStatus \<Rightarrow> nat option \<Rightarrow> ListingORM list" where
  "get_by_status db st limit =
     (let query = filter (\<lambda>r. status r = st) db
      in case limit of None \<Rightarrow> query | Some n \<Rightarrow> if n \<noteq> 0 then take n query else query)"

text \<open>
  The two derived metrics, under the guards of \<^verbatim>\<open>_create\<close> and \<^verbatim>\<open>_update\<close>:
  \<^verbatim>\<open>listing.ebitda and listing.revenue and listing.revenue > 0\<close> and
  \<^verbatim>\<open>listing.price and listing.ebitda and listing.ebitda > 0\<close>.
\<close>

definition calc_ebitda_margin :: "'a BusinessListing_scheme \<Rightarrow> rat option" where
  "calc_ebitda_margin listing =
     (case (ebitda listing, revenue listing) of
        (Some e, Some r) \<Rightarrow> if e \<noteq> 0 \<and> r \<noteq> 0 \<and> r > 0 then Some (of_int e / of_int r) else None
      | _ \<Rightarrow> None)"

definition calc_asking_multiple :: "'a BusinessListing_scheme \<Rightarrow> rat option" where
  "calc_asking_multiple listing =
     (case (price listing, ebitda listing) of
        (Some p, Some e) \<Rightarrow> if p \<noteq> 0 \<and> e \<noteq> 0 \<and> e > 0 then Some (of_int p / of_int e) else None
      | _ \<Rightarrow> None)"

definition create :: "int \<Rightarrow> table \<Rightarrow> BusinessListing \<Rightarrow> db_error + (ListingORM \<times> table)" where
  "create now db listing =
     (let orm = \<lparr> listing_id = listing_id listing, source = source listing,
                  title = title listing, description = description listing,
                  price = price listing, revenue = revenue listing, ebitda = ebitda listing,
                  location = location listing, industry = industry listing,
                  url = url listing, posted_date = posted_date listing,
                  raw_data = raw_data listing,
                  ebitda_margin = calc_ebitda_margin listing,
                  asking_multiple = calc_asking_multiple listing,
                  status = NEW, first_seen_at = now, last_updated_at = now,
                  processed_at = None, research_findings = None, confidence_score = None,
                  scalability_score = None, memo = None \<rparr>
      in case db_add db orm of Inl e \<Rightarrow> Inl e | Inr db' \<Rightarrow> Inr (orm, db'))"

text \<open>\<^verbatim>\<open>_update\<close> assigns a derived metric only under its guard; it never clears one.\<close>

definition update :: "int \<Rightarrow> table \<Rightarrow> ListingORM \<Rightarrow> BusinessListing \<Rightarrow> ListingORM \<times> table" where
  "update now db existing listing =
     (let e1 = existing\<lparr> title := title listing, description := description listing,
                         price := price listing, revenue := revenue listing,
                         ebitda := ebitda listing, location := location listing,
                         industry := industry listing, url := url listing,
                         posted_date := posted_date listing, raw_data := raw_data listing,
                         last_updated_at := now \<rparr>;
          e2 = (case calc_ebitda_margin listing of
                  None \<Rightarrow> e1 | Some m \<Rightarrow> e1\<lparr> ebitda_margin := Some m \<rparr>);
          e3 = (case calc_asking_multiple listing of
                  None \<Rightarrow> e2 | Some m \<Rightarrow> e2\<lparr> asking_multiple := Some m \<rparr>)
      in (e3, db_commit db e3))"

definition save :: "int \<Rightarrow> table \<Rightarrow> BusinessListing \<Rightarrow> db_error + (ListingORM \<times> table)" where
  "save now db listing =
     (case get_by_id db (listing_id listing) of
        Inl e \<Rightarrow> Inl e
      | Inr (Some existing) \<Rightarrow> Inr (update now db existing listing)
      | Inr None \<Rightarrow> create now db listing)"

definition save_with_dedup_check ::
  "int \<Rightarrow> table \<Rightarrow> BusinessListing \<Rightarrow> db_error + ((ListingORM \<times> bool) \<times> table)" where
  "save_with_dedup_check now db listing =
     (case exists_listing db (listing_id listing) (source listing) of
        Inl e \<Rightarrow> Inl e
      | Inr found \<Rightarrow>
          (let is_new = \<not> found
           in case save now db listing of
                Inl e \<Rightarrow> Inl e
              | Inr (orm, db') \<Rightarrow> Inr ((orm, is_new), db')))"

text \<open>
  \<^verbatim>\<open>update_status\<close>. The commit issues an UPDATE, and with it the \<^verbatim>\<open>onupdate\<close> of
  column \<^verbatim>\<open>last_updated_at\<close>, only when an assignment changed the row.
\<close>

definition update_status ::
  "int \<Rightarrow> table \<Rightarrow> string \<Rightarrow> ListingStatus \<Rightarrow> int option \<Rightarrow> db_error + table" where
  "update_status now db lid st processed =
     (case get_by_id db lid of
        Inl e \<Rightarrow> Inl e
      | Inr None \<Rightarrow> Inr db
      | Inr (Some orm) \<Rightarrow>
          (let o1 = orm\<lparr> status := st \<rparr>;
               o2 = (case processed of None \<Rightarrow> o1 | Some p \<Rightarrow> o1\<lparr> processed_at := Some p \<rparr>);
               changed = (status orm \<noteq> st \<or>
                          (case processed of None \<Rightarrow> False | Some p \<Rightarrow> processed_at orm \<noteq> Some p))
           in Inr (db_commit db (if changed then o2\<lparr> last_updated_at := now \<rparr> else o2))))"

subsection \<open>PrefilterService and the filtering pass (main.py, daily_run.py)\<close>

definition process_listing ::
  "int \<Rightarrow> ListingFilter \<Rightarrow> table \<Rightarrow> BusinessListing \<Rightarrow> db_error + (verdict \<times> table)" where
  "process_listing now filters db listing =
     (case save_with_dedup_check now db listing of
        Inl e \<Rightarrow> Inl e
      | Inr (saved, db1) \<Rightarrow>
          (let v = evaluate now filters listing;
               new_status = (if fst v then PREFILTER_PASS else PREFILTER_FAIL)
           in case update_status now db1 (listing_id listing) new_status None of
                Inl e \<Rightarrow> Inl e
              | Inr db2 \<Rightarrow> Inr (v, db2)))"

text \<open>
  The state of the loop of \<^verbatim>\<open>filter_command\<close> and \<^verbatim>\<open>reset_and_filter\<close>: the table, the
  counters, and the calls of \<^verbatim>\<open>process_listing\<close> (hence of \<^verbatim>\<open>evaluate\<close>) made so far,
  each with the listing's id and the verdict it returned.
\<close>

record filter_run =
  fr_db :: table
  passed :: nat
  failed :: nat
  skipped_sold :: nat
  evaluated :: "(string \<times> verdict) list"

definition model_validate :: "ListingORM \<Rightarrow> BusinessListing" where
  "model_validate orm = BusinessListing.truncate orm"

fun filter_loop ::
  "int \<Rightarrow> ListingFilter \<Rightarrow> ListingORM list \<Rightarrow> filter_run \<Rightarrow> db_error + filter_run" where
  "filter_loop now filters [] st = Inr st"
| "filter_loop now filters (orm # rest) st =
     (let listing = model_validate orm in
      if title listing \<noteq> [] \<and> contains (lower (title listing)) ''sold'' then
        (case update_status now (fr_db st) (listing_id listing) PREFILTER_FAIL None of
           Inl e \<Rightarrow> Inl e
         | Inr db' \<Rightarrow>
             filter_loop now filters rest
               (st\<lparr> fr_db := db', skipped_sold := skipped_sold st + 1 \<rparr>))
      else
        (case process_listing now filters (fr_db st) listing of
           Inl e \<Rightarrow> Inl e
         | Inr (v, db') \<Rightarrow>
             filter_loop now filters rest
               (st\<lparr> fr_db := db',
                    passed := (if fst v then passed st + 1 else passed st),
                    failed := (if fst v then failed st else failed st + 1),
                    evaluated := evaluated st @ [(listing_id listing, v)] \<rparr>)))"

definition filter_command :: "int \<Rightarrow> int \<Rightarrow> table \<Rightarrow> db_error + filter_run" where
  "filter_command now max_price_arg db =
     filter_loop now (ListingFilter_with_max_price max_price_arg) (get_by_status db NEW None)
       \<lparr> fr_db = db, passed = 0, failed = 0, skipped_sold = 0, evaluated = [] \<rparr>"

text \<open>\<^verbatim>\<open>reset_and_filter\<close>: the bulk UPDATE sets every status to \<^verbatim>\<open>new\<close> first.\<close>

definition reset_and_filter :: "int \<Rightarrow> table \<Rightarrow> db_error + filter_run" where
  "reset_and_filter now db =
     (let db0 = map (\<lambda>r. r\<lparr> status := NEW, last_updated_at := now \<rparr>) db
      in filter_loop now default_ListingFilter (get_by_status db0 NEW None)
           \<lparr> fr_db = db0, passed = 0, failed = 0, skipped_sold = 0, evaluated = [] \<rparr>)"

section \<open>Fetch orchestrator (fetchers/seek.py)\<close>

text \<open>
  The site is a parameter. The \<open>n\<close>-th load of a search page either raises or gives the
  result cards found in it, each card already parsed by \<^verbatim>\<open>_parse_listing_basic\<close>
  (\<open>None\<close> when it has no recoverable identifier). The \<open>n\<close>-th load of a detail page either
  raises or gives the title found by \<^verbatim>\<open>_extract_detail_title\<close> and the result of the
  later extractions, which may raise as well. Launching the browser and opening or closing
  a context are taken to succeed.
\<close>

datatype py_exception = PyException string

record basic_info =
  b_id :: string
  b_title :: string
  b_price :: "int option"
  b_location :: "string option"
  b_industry :: "string option"
  b_url :: string
  b_broker_name :: "string option"
  b_listing_type :: "string option"

type_synonym element = "basic_info option"

type_synonym detail_tuple =
  "string option \<times> string option \<times> string option \<times> pydatetime option \<times> (string \<times> pyval) list"

record detail_doc =
  doc_title :: "string option"
  doc_rest ::
    "py_exception + (string option \<times> string option \<times> pydatetime option \<times> (string \<times> pyval) list)"

record world =
  list_nav :: "nat \<Rightarrow> py_exception + element list"
  detail_nav :: "nat \<Rightarrow> py_exception + detail_doc"
  extract_title_from_url :: "string \<Rightarrow> string option"

text \<open>
  What a run does to the session and to the clock. \<open>Sleep lo hi\<close> is a
  \<^verbatim>\<open>time.sleep\<close> of a duration drawn between \<open>lo\<close> and \<open>hi\<close>.
\<close>

datatype event =
  LaunchBrowser | CloseBrowser | NewContext | CloseContext | Goto string | Sleep nat nat

text \<open>The fetcher object and the local variables of \<^verbatim>\<open>fetch\<close>.\<close>

record fetch_state =
  browser_open :: bool
  context_open :: bool
  list_navs :: nat
  detail_navs :: nat
  trace :: "event list"
  fetched :: int
  skipped :: int
  page_num :: nat
  consecutive_failures :: nat
  yielded :: "BusinessListing list"

definition new_fetcher :: fetch_state where
  "new_fetcher =
     \<lparr> browser_open = False, context_open = False, list_navs = 0, detail_navs = 0,
       trace = [], fetched = 0, skipped = 0, page_num = 1, consecutive_failures = 0,
       yielded = [] \<rparr>"

definition log_events :: "event list \<Rightarrow> fetch_state \<Rightarrow> fetch_state" where
  "log_events es st = st\<lparr> trace := trace st @ es \<rparr>"

definition init_browser :: "fetch_state \<Rightarrow> fetch_state" where
  "init_browser st =
     (if browser_open st then st else log_events [LaunchBrowser] (st\<lparr> browser_open := True \<rparr>))"

definition close_browser :: "fetch_state \<Rightarrow> fetch_state" where
  "close_browser st =
     (if browser_open st then log_events [CloseBrowser] (st\<lparr> browser_open := False \<rparr>) else st)"

definition get_context_and_page :: "fetch_state \<Rightarrow> fetch_state" where
  "get_context_and_page st =
     (if context_open st then st
      else log_events [NewContext] ((init_browser st)\<lparr> context_open := True \<rparr>))"

definition close_context :: "fetch_state \<Rightarrow> fetch_state" where
  "close_context st =
     (if context_open st then log_events [CloseContext] (st\<lparr> context_open := False \<rparr>) else st)"

definition BASE_URL :: string where
  "BASE_URL = ''https://www.seekbusiness.com.au''"

definition build_search_url :: "string \<Rightarrow> int \<Rightarrow> string" where
  "build_search_url loc radius_km =
     BASE_URL @ ''/businesses-for-sale/in-'' @ loc @ ''?rad='' @ str_int radius_km"

text \<open>
  \<^verbatim>\<open>_fetch_list_page\<close> with \<^verbatim>\<open>max_retries = 3\<close>: \<open>attempt\<close> is the loop variable, the
  second number the attempts left. \<^verbatim>\<open>wait_for_selector\<close> raises on a page without a
  result card. The result is \<open>Inl\<close> for an exception that leaves the function.
\<close>

fun list_attempts ::
  "world \<Rightarrow> string \<Rightarrow> nat \<Rightarrow> nat \<Rightarrow> fetch_state \<Rightarrow> (py_exception + element list) \<times> fetch_state" where
  "list_attempts w page_url attempt 0 st = (Inr [], st)"
| "list_attempts w page_url attempt (Suc left) st =
     (let st1 = log_events [Goto page_url] (st\<lparr> list_navs := list_navs st + 1 \<rparr>)
      in case list_nav w (list_navs st) of
           Inr (el # els) \<Rightarrow> (Inr (el # els), st1)
         | _ \<Rightarrow>
             if attempt < 3
             then list_attempts w page_url (attempt + 1) left
                    (log_events [Sleep (3 * attempt) (3 * attempt + 2)] st1)
             else (Inr [], st1))"

definition fetch_list_page ::
  "world \<Rightarrow> string \<Rightarrow> fetch_state \<Rightarrow> (py_exception + element list) \<times> fetch_state" where
  "fetch_list_page w page_url st = list_attempts w page_url 1 3 st"

definition is_blocked_page :: "string option \<Rightarrow> bool" where
  "is_blocked_page t =
     (case t of
        None \<Rightarrow> False
      | Some s \<Rightarrow>
          s \<noteq> [] \<and>
          (contains (lower s) ''sign in'' \<or> contains (lower s) ''log in''
           \<or> s = ''Verified Businesses''))"

definition SOLD_SENTINEL :: detail_tuple where
  "SOLD_SENTINEL = (Some ''__SOLD__'', None, None, None, [])"

definition is_sold_title :: "string option \<Rightarrow> bool" where
  "is_sold_title t = (case t of None \<Rightarrow> False | Some s \<Rightarrow> s \<noteq> [] \<and> contains (lower s) ''sold'')"

text \<open>
  \<^verbatim>\<open>_fetch_detail_page\<close> with \<^verbatim>\<open>max_retries = 3\<close>. The result \<open>None\<close> is Python's
  \<^verbatim>\<open>None\<close> of a loop that ends without \<^verbatim>\<open>return\<close>.
\<close>

fun detail_attempts ::
  "world \<Rightarrow> string \<Rightarrow> nat \<Rightarrow> nat \<Rightarrow> fetch_state \<Rightarrow> detail_tuple option \<times> fetch_state" where
  "detail_attempts w detail_url attempt 0 st = (None, st)"
| "detail_attempts w detail_url attempt (Suc left) st =
     (let st1 = log_events [Sleep 1 3, Goto detail_url] (st\<lparr> detail_navs := detail_navs st + 1 \<rparr>);
          on_error =
            (\<lambda>u::unit.
               if attempt < 3
               then detail_attempts w detail_url (attempt + 1) left
                      (log_events [Sleep (3 * attempt) (3 * attempt + 2)] st1)
               else (Some (None, None, None, None, []), st1))
      in case detail_nav w (detail_navs st) of
           Inl e \<Rightarrow> on_error ()
         | Inr doc \<Rightarrow>
             if is_sold_title (doc_title doc) then (Some SOLD_SENTINEL, st1)
             else if is_blocked_page (doc_title doc) \<and> attempt < 3
             then detail_attempts w detail_url (attempt + 1) left
                    (log_events [Sleep (5 * attempt) (5 * attempt + 3)] st1)
             else
               (let t = (if is_blocked_page (doc_title doc)
                         then extract_title_from_url w detail_url else doc_title doc)
                in case doc_rest doc of
                     Inl e \<Rightarrow> on_error ()
                   | Inr (descr, posted_relative, posted_calculated, structured_data) \<Rightarrow>
                       (Some (t, descr, posted_relative, posted_calculated,
                              structured_data), st1)))"

definition fetch_detail_page ::
  "world \<Rightarrow> string \<Rightarrow> fetch_state \<Rightarrow> detail_tuple option \<times> fetch_state" where
  "fetch_detail_page w detail_url st = detail_attempts w detail_url 1 3 st"

definition opt_str :: "string option \<Rightarrow> pyval" where
  "opt_str x = (case x of None \<Rightarrow> PNone | Some s \<Rightarrow> PStr s)"

text \<open>
  The end of the loop body, from the failure counter to \<^verbatim>\<open>yield\<close>: \<open>info\<close> is
  \<^verbatim>\<open>basic_info\<close> with the title it has by then.
\<close>

definition track_and_yield ::
  "basic_info \<Rightarrow> detail_tuple \<Rightarrow> bool \<Rightarrow> fetch_state \<Rightarrow> fetch_state" where
  "track_and_yield info detail detail_failed st =
     (case detail of (real_title, descr, posted_relative, posted_calculated, structured_data) \<Rightarrow>
      let st1 =
            (if detail_failed then
               (let n = consecutive_failures st + 1
                in if n \<ge> 5
                   then log_events [Sleep 5 10]
                          ((get_context_and_page (close_context st))\<lparr> consecutive_failures := 0 \<rparr>)
                   else st\<lparr> consecutive_failures := n \<rparr>)
             else st\<lparr> consecutive_failures := 0 \<rparr>);
          raw =
            [(''broker_name'', opt_str (b_broker_name info)),
             (''listing_type'', opt_str (b_listing_type info)),
             (''posted_date_relative'', opt_str posted_relative),
             (''structured_data'', PDict structured_data),
             (''detail_fetched'', PBool (\<not> detail_failed))];
          listing =
            \<lparr> listing_id = b_id info, source = ''seekbusiness'', title = b_title info,
              description = descr, price = b_price info, revenue = None, ebitda = None,
              location = b_location info, industry = b_industry info, url = Some (b_url info),
              posted_date = posted_calculated, raw_data = Some raw \<rparr>
      in st1\<lparr> fetched := fetched st1 + 1, yielded := yielded st1 @ [listing] \<rparr>)"

text \<open>One iteration of the loop over the cards of a page, after the check of \<^verbatim>\<open>count\<close>.\<close>

definition process_element ::
  "world \<Rightarrow> bool \<Rightarrow> string set \<Rightarrow> element \<Rightarrow> fetch_state \<Rightarrow> fetch_state" where
  "process_element w fetch_details known_ids el st =
     (case el of
        None \<Rightarrow> st
      | Some info \<Rightarrow>
          if contains (lower (b_title info)) ''sold'' then st\<lparr> skipped := skipped st + 1 \<rparr>
          else if b_id info \<in> known_ids then st\<lparr> skipped := skipped st + 1 \<rparr>
          else if fetch_details \<and> b_url info \<noteq> [] then
            (case fetch_detail_page w (b_url info) st of
               (None, st1) \<Rightarrow> st1
             | (Some result, st1) \<Rightarrow>
                 if fst result = Some ''__SOLD__'' then st1\<lparr> skipped := skipped st1 + 1 \<rparr>
                 else
                   (let real_title = fst result;
                        detail_failed = (real_title = None \<and> fst (snd result) = None);
                        info' = (case real_title of
                                   None \<Rightarrow> info
                                 | Some t \<Rightarrow> if t \<noteq> [] then info\<lparr> b_title := t \<rparr> else info)
                    in track_and_yield info' result detail_failed st1))
          else track_and_yield info (None, None, None, None, []) False st)"

fun element_loop ::
  "world \<Rightarrow> int \<Rightarrow> bool \<Rightarrow> string set \<Rightarrow> element list \<Rightarrow> fetch_state \<Rightarrow> fetch_state" where
  "element_loop w count fetch_details known_ids [] st = st"
| "element_loop w count fetch_details known_ids (el # els) st =
     (if fetched st \<ge> count then st
      else element_loop w count fetch_details known_ids els
             (process_element w fetch_details known_ids el st))"

text \<open>
  The loop over the pages. It has no bound of its own (a site that serves cards on every
  page, all of them skipped, keeps it running), so it takes fuel: \<open>None\<close> is a run that
  needs more pages than the fuel. The first component of a result is the exception that
  leaves \<^verbatim>\<open>fetch\<close>, if any.
\<close>

fun page_loop ::
  "nat \<Rightarrow> world \<Rightarrow> string \<Rightarrow> int \<Rightarrow> bool \<Rightarrow> string set \<Rightarrow> fetch_state
     \<Rightarrow> (py_exception option \<times> fetch_state) option" where
  "page_loop 0 w search_url count fetch_details known_ids st =
     (if fetched st < count then None else Some (None, st))"
| "page_loop (Suc fuel) w search_url count fetch_details known_ids st =
     (if fetched st < count then
        (case fetch_list_page w (search_url @ ''&pg='' @ str_nat (page_num st)) st of
           (Inl e, st1) \<Rightarrow> Some (Some e, st1)
         | (Inr [], st1) \<Rightarrow> Some (None, st1)
         | (Inr (el # els), st1) \<Rightarrow>
             (let st2 = element_loop w count fetch_details known_ids (el # els)
                          (st1\<lparr> consecutive_failures := 0 \<rparr>)
              in page_loop fuel w search_url count fetch_details known_ids
                   (st2\<lparr> page_num := page_num st2 + 1 \<rparr>)))
      else Some (None, st))"

text \<open>
  \<^verbatim>\<open>fetch\<close>, run to the end of the generator: the listings it yields are in
  \<open>yielded\<close>. The \<^verbatim>\<open>finally\<close> clause runs on both ways out.
\<close>

definition fetch ::
  "nat \<Rightarrow> world \<Rightarrow> string \<Rightarrow> int \<Rightarrow> int \<Rightarrow> bool \<Rightarrow> string set \<Rightarrow> fetch_state
     \<Rightarrow> (py_exception option \<times> fetch_state) option" where
  "fetch fuel w loc radius_km count fetch_details known_ids self =
     (let st0 = (get_context_and_page self)\<lparr> fetched := 0, page_num := 1, skipped := 0 \<rparr>
      in case page_loop fuel w (build_search_url loc radius_km) count fetch_details known_ids st0 of
           None \<Rightarrow> None
         | Some (raised, st1) \<Rightarrow> Some (raised, close_browser (close_context st1)))"

section \<open>Auxiliary notions and example data\<close>

text \<open>
  A stored row and an incoming listing that carry the same native id under two sources.
\<close>

definition bizbuysell_row :: ListingORM where
  "bizbuysell_row =
     \<lparr> listing_id = ''12345'', source = ''bizbuysell'', title = ''Plumbing Services'',
       description = None, price = Some 500000, revenue = Some 400000, ebitda = Some 100000,
       location = None, industry = Some ''Plumbing'', url = None, posted_date = None,
       raw_data = None, ebitda_margin = Some (1 / 4), asking_multiple = Some 5,
       status = NEW, first_seen_at = 0, last_updated_at = 0, processed_at = None,
       research_findings = None, confidence_score = None, scalability_score = None,
       memo = None \<rparr>"

definition seek_listing :: BusinessListing where
  "seek_listing =
     \<lparr> listing_id = ''12345'', source = ''seek'', title = ''Accounting Practice'',
       description = None, price = Some 300000, revenue = None, ebitda = None,
       location = None, industry = Some ''Accounting'', url = None, posted_date = None,
       raw_data = None \<rparr>"

definition flat_listing :: BusinessListing where
  "flat_listing =
     \<lparr> listing_id = ''x3'', source = ''mock'', title = ''Consulting Firm'',
       description = None, price = Some 250000, revenue = Some 100, ebitda = Some 0,
       location = None, industry = Some ''Consulting'', url = None, posted_date = None,
       raw_data = None \<rparr>"

definition flat_row :: ListingORM where
  "flat_row =
     \<lparr> listing_id = ''x3'', source = ''mock'', title = ''Consulting Firm'',
       description = None, price = Some 250000, revenue = Some 100, ebitda = Some 0,
       location = None, industry = Some ''Consulting'', url = None, posted_date = None,
       raw_data = None, ebitda_margin = None, asking_multiple = None,
       status = NEW, first_seen_at = 5, last_updated_at = 5, processed_at = None,
       research_findings = None, confidence_score = None, scalability_score = None,
       memo = None \<rparr>"

definition healthy_listing :: BusinessListing where
  "healthy_listing =
     \<lparr> listing_id = ''x4'', source = ''mock'', title = ''Distribution Business'',
       description = None, price = Some 600000, revenue = Some 800000, ebitda = Some 200000,
       location = None, industry = Some ''Distribution'', url = None, posted_date = None,
       raw_data = None \<rparr>"

definition overwritten_row :: "int \<Rightarrow> ListingORM" where
  "overwritten_row now =
     \<lparr> listing_id = ''12345'', source = ''bizbuysell'', title = ''Accounting Practice'',
       description = None, price = Some 300000, revenue = None, ebitda = None,
       location = None, industry = Some ''Accounting'', url = None, posted_date = None,
       raw_data = None, ebitda_margin = Some (1 / 4), asking_multiple = Some 5,
       status = NEW, first_seen_at = 0, last_updated_at = now, processed_at = None,
       research_findings = None, confidence_score = None, scalability_score = None,
       memo = None \<rparr>"

text \<open>Two ingestions of one listing in succession, as a caller's loop makes them.\<close>

definition upsert_twice ::
  "int \<Rightarrow> int \<Rightarrow> table \<Rightarrow> BusinessListing \<Rightarrow> db_error + (bool \<times> bool \<times> table)" where
  "upsert_twice now1 now2 db listing =
     (case save_with_dedup_check now1 db listing of
        Inl e \<Rightarrow> Inl e
      | Inr ((orm1, is_new1), db1) \<Rightarrow>
          (case save_with_dedup_check now2 db1 listing of
             Inl e \<Rightarrow> Inl e
           | Inr ((orm2, is_new2), db2) \<Rightarrow> Inr (is_new1, is_new2, db2)))"

text \<open>The check a reason comes from: price 0, industry 1, title 2, freshness 3.\<close>

fun reason_rank :: "reason \<Rightarrow> nat" where
  "reason_rank (PriceExceeds p m) = 0"
| "reason_rank (IndustryMatches ind ex) = 1"
| "reason_rank (TitleContains ex) = 2"
| "reason_rank (ListedTooLong d m) = 3"

text \<open>
  A verdict whose reasons come from checks before the \<open>k\<close>-th, in their order and each at
  most once, and whose flag says whether there is none.
\<close>

definition ordered_below :: "nat \<Rightarrow> verdict \<Rightarrow> bool" where
  "ordered_below k v =
     (sorted_wrt (<) (map reason_rank (snd v)) \<and> list_all (\<lambda>r. reason_rank r < k) (snd v)
      \<and> fst v = (snd v = []))"

definition aged_listing :: BusinessListing where
  "aged_listing =
     \<lparr> listing_id = ''seek_7'', source = ''seekbusiness'', title = ''Accounting Practice'',
       description = None, price = Some 300000, revenue = None, ebitda = None,
       location = None, industry = Some ''Accounting'', url = None,
       posted_date = Some (Naive 0), raw_data = None \<rparr>"

definition franchise_listing :: "string \<Rightarrow> BusinessListing" where
  "franchise_listing ind =
     \<lparr> listing_id = ''seek_8'', source = ''seekbusiness'', title = ''Law Practice Franchise'',
       description = None, price = Some 300000, revenue = None, ebitda = None,
       location = None, industry = Some ind, url = None, posted_date = None,
       raw_data = None \<rparr>"

definition capitalised_filter :: ListingFilter where
  "capitalised_filter = default_ListingFilter\<lparr> franchise_allowed_industries := Some [''Legal''] \<rparr>"

definition sold_row :: ListingORM where
  "sold_row =
     \<lparr> listing_id = ''seek_9'', source = ''seekbusiness'', title = ''Cafe Business - SOLD'',
       description = None, price = Some 90000, revenue = None, ebitda = None,
       location = None, industry = Some ''Cafe'', url = None, posted_date = None,
       raw_data = None, ebitda_margin = None, asking_multiple = None,
       status = NEW, first_seen_at = 0, last_updated_at = 0, processed_at = None,
       research_findings = None, confidence_score = None, scalability_score = None,
       memo = None \<rparr>"

text \<open>The stored row with a given id, when the primary key holds.\<close>

definition row_of :: "table \<Rightarrow> string \<Rightarrow> ListingORM option" where
  "row_of db k = find (\<lambda>x. listing_id x = k) db"

definition is_sold :: "ListingORM \<Rightarrow> bool" where
  "is_sold r = contains (lower (title r)) ''sold''"

text \<open>A load of a search page fails when it raises or shows no result card.\<close>

definition page_fails :: "py_exception + element list \<Rightarrow> bool" where
  "page_fails r = (case r of Inr (el # els) \<Rightarrow> False | _ \<Rightarrow> True)"

definition unreachable_world :: world where
  "unreachable_world =
     \<lparr> list_nav = (\<lambda>n. Inl (PyException ''Timeout 30000ms exceeded'')),
       detail_nav = (\<lambda>n. Inl (PyException ''Timeout 30000ms exceeded'')),
       extract_title_from_url = (\<lambda>u. None) \<rparr>"

definition card_info :: "string \<Rightarrow> basic_info" where
  "card_info n =
     \<lparr> b_id = ''seek_'' @ n, b_title = ''Business '' @ n, b_price = Some 450000,
       b_location = Some ''Sunshine Coast QLD'', b_industry = Some ''Accounting'',
       b_url = ''https://www.seekbusiness.com.au/business-listing/business/'' @ n,
       b_broker_name = None, b_listing_type = Some ''Business'' \<rparr>"

definition result_card :: "string \<Rightarrow> element" where
  "result_card n = Some (card_info n)"

text \<open>The listing that \<^verbatim>\<open>fetch\<close> builds from the summary of a card alone.\<close>

definition summary_listing :: "basic_info \<Rightarrow> BusinessListing" where
  "summary_listing info =
     \<lparr> listing_id = b_id info, source = ''seekbusiness'', title = b_title info,
       description = None, price = b_price info, revenue = None, ebitda = None,
       location = b_location info, industry = b_industry info, url = Some (b_url info),
       posted_date = None,
       raw_data = Some [(''broker_name'', opt_str (b_broker_name info)),
                        (''listing_type'', opt_str (b_listing_type info)),
                        (''posted_date_relative'', PNone),
                        (''structured_data'', PDict []),
                        (''detail_fetched'', PBool False)] \<rparr>"

text \<open>
  A site with two search pages of three cards each, where no detail page ever loads.
\<close>

definition two_page_world :: world where
  "two_page_world =
     \<lparr> list_nav = (\<lambda>n. if n = 0 then Inr [result_card ''1'', result_card ''2'', result_card ''3'']
                        else if n = 1
                        then Inr [result_card ''4'', result_card ''5'', result_card ''6'']
                        else Inl (PyException ''Timeout 30000ms exceeded'')),
       detail_nav = (\<lambda>n. Inl (PyException ''Timeout 30000ms exceeded'')),
       extract_title_from_url = (\<lambda>u. None) \<rparr>"





section \<open>Substrings\<close>

text \<open>\<open>contains\<close> is the contiguous-substring test.\<close>

lemma startswith_iff: "startswith s n \<longleftrightarrow> (\<exists>t. s = n @ t)"
  by (induction s n rule: startswith.induct) auto

lemma contains_iff: "contains hay needle \<longleftrightarrow> (\<exists>p t. hay = p @ needle @ t)"
proof (induction hay)
  case Nil
  show ?case by auto
next
  case (Cons c cs)
  show ?case
  proof
    assume "contains (c # cs) needle"
    then consider "startswith (c # cs) needle" | "contains cs needle" by auto
    then show "\<exists>p t. c # cs = p @ needle @ t"
    proof cases
      case 1
      then obtain t where "c # cs = needle @ t" by (auto simp: startswith_iff)
      then have "c # cs = [] @ needle @ t" by simp
      then show ?thesis by blast
    next
      case 2
      with Cons obtain p t where "cs = p @ needle @ t" by auto
      then have "c # cs = (c # p) @ needle @ t" by simp
      then show ?thesis by blast
    qed
  next
    assume "\<exists>p t. c # cs = p @ needle @ t"
    then obtain p t where e: "c # cs = p @ needle @ t" by blast
    show "contains (c # cs) needle"
    proof (cases p)
      case Nil
      with e have "startswith (c # cs) needle" by (auto simp: startswith_iff)
      then show ?thesis by simp
    next
      case (Cons a p')
      with e have "cs = p' @ needle @ t" by simp
      with Cons.IH have "contains cs needle" by blast
      then show ?thesis by simp
    qed
  qed
qed

section \<open>The store: lookups under the primary key\<close>

lemma filter_id_distinct:
  "distinct (map listing_id db) \<Longrightarrow>
   filter (\<lambda>r. listing_id r = k) db = (case find (\<lambda>r. listing_id r = k) db of None \<Rightarrow> [] | Some r \<Rightarrow> [r])"
proof (induction db)
  case Nil
  then show ?case by simp
next
  case (Cons a db)
  show ?case
  proof (cases "listing_id a = k")
    case True
    with Cons.prems have "k \<notin> listing_id ` set db" by auto
    then have "filter (\<lambda>r. listing_id r = k) db = []"
      by (auto simp: filter_empty_conv)
    with True show ?thesis by simp
  next
    case False
    with Cons show ?thesis by simp
  qed
qed

lemma get_by_id_distinct:
  "distinct (map listing_id db) \<Longrightarrow> get_by_id db k = Inr (find (\<lambda>r. listing_id r = k) db)"
  by (simp add: get_by_id_def filter_id_distinct scalar_one_or_none_def split: option.splits)

lemma get_by_id_absent:
  "k \<notin> listing_id ` set db \<Longrightarrow> get_by_id db k = Inr None"
proof -
  assume "k \<notin> listing_id ` set db"
  then have "filter (\<lambda>r. listing_id r = k) db = []"
    by (auto simp: filter_empty_conv)
  then show ?thesis by (simp add: get_by_id_def scalar_one_or_none_def)
qed

text \<open>
  C10: \<^verbatim>\<open>update_status\<close> called with an id that no stored row has raises nothing,
  returns normally and leaves the whole table as it was: no row, status or
  \<^verbatim>\<open>processed_at\<close> changes.
\<close>

theorem update_status_missing_id_noop:
  "lid \<notin> listing_id ` set db \<Longrightarrow> update_status now db lid st processed = Inr db"
  by (simp add: update_status_def get_by_id_absent)

theorem update_status_missing_id_noop_witness:
  "''x2'' \<notin> listing_id ` set [bizbuysell_row] \<and>
   update_status 7 [bizbuysell_row] ''x2'' PREFILTER_FAIL (Some 7) = Inr [bizbuysell_row]"
  using update_status_missing_id_noop [of "''x2''" "[bizbuysell_row]" 7 PREFILTER_FAIL "Some 7"]
  by (simp add: bizbuysell_row_def)

section \<open>Derived metrics\<close>

lemma create_result:
  "create now db l = Inr (orm, db') \<Longrightarrow>
     db' = db @ [orm] \<and> listing_id orm = listing_id l \<and>
     ebitda_margin orm = calc_ebitda_margin l \<and> asking_multiple orm = calc_asking_multiple l"
  by (auto simp: create_def db_add_def Let_def split: if_splits)

lemma update_result:
  "update now db existing l = (orm, db') \<Longrightarrow>
     db' = db_commit db orm \<and> listing_id orm = listing_id existing \<and>
     source orm = source existing \<and> status orm = status existing \<and>
     title orm = title l \<and> description orm = description l \<and> price orm = price l \<and>
     revenue orm = revenue l \<and> ebitda orm = ebitda l \<and> location orm = location l \<and>
     industry orm = industry l \<and> url orm = url l \<and> posted_date orm = posted_date l \<and>
     raw_data orm = raw_data l \<and>
     ebitda_margin orm =
       (case calc_ebitda_margin l of None \<Rightarrow> ebitda_margin existing | Some m \<Rightarrow> Some m) \<and>
     asking_multiple orm =
       (case calc_asking_multiple l of None \<Rightarrow> asking_multiple existing | Some m \<Rightarrow> Some m)"
  by (auto simp: update_def Let_def split: option.splits)

lemma get_by_id_Some:
  "get_by_id db k = Inr (Some r) \<Longrightarrow> r \<in> set db \<and> listing_id r = k"
proof -
  assume a: "get_by_id db k = Inr (Some r)"
  then have "filter (\<lambda>r. listing_id r = k) db = [r]"
    by (auto simp: get_by_id_def scalar_one_or_none_def split: list.splits)
  then have "r \<in> set (filter (\<lambda>r. listing_id r = k) db)" by simp
  then show ?thesis by simp
qed

lemma db_commit_mem:
  "r \<in> set db \<Longrightarrow> listing_id orm = listing_id r \<Longrightarrow> orm \<in> set (db_commit db orm)"
  by (force simp: db_commit_def)

lemma save_result:
  assumes "save now db l = Inr (orm, db')"
  shows "orm \<in> set db' \<and> listing_id orm = listing_id l \<and>
         (get_by_id db (listing_id l) = Inr None \<and>
            ebitda_margin orm = calc_ebitda_margin l \<and>
            asking_multiple orm = calc_asking_multiple l \<or>
          (\<exists>existing. get_by_id db (listing_id l) = Inr (Some existing) \<and>
            (orm, db') = update now db existing l))"
proof (cases "get_by_id db (listing_id l)")
  case (Inl e)
  with assms show ?thesis by (simp add: save_def)
next
  case (Inr found)
  show ?thesis
  proof (cases found)
    case None
    with Inr assms have "create now db l = Inr (orm, db')" by (simp add: save_def)
    from create_result [OF this] None Inr show ?thesis by simp
  next
    case (Some existing)
    with Inr assms have u: "update now db existing l = (orm, db')" by (simp add: save_def)
    from get_by_id_Some Inr Some have m: "existing \<in> set db" "listing_id existing = listing_id l"
      by auto
    from update_result [OF u] m db_commit_mem [of existing db orm] Inr Some u show ?thesis
      by auto
  qed
qed

text \<open>
  C2, as the code has it: for every listing that \<^verbatim>\<open>save\<close> persists (created or
  updated), the stored \<^verbatim>\<open>ebitda_margin\<close> is \<^verbatim>\<open>ebitda / revenue\<close> whenever
  \<^verbatim>\<open>ebitda\<close> is set and not zero and \<^verbatim>\<open>revenue > 0\<close>, and the stored
  \<^verbatim>\<open>asking_multiple\<close> is \<^verbatim>\<open>price / ebitda\<close> whenever \<^verbatim>\<open>price\<close> is set and not zero
  and \<^verbatim>\<open>ebitda > 0\<close>; when the listing is created, each derived field is absent in all
  other cases.
\<close>

theorem derived_metrics_on_save:
  assumes "save now db l = Inr (orm, db')"
  shows "orm \<in> set db' \<and> listing_id orm = listing_id l \<and>
         (\<forall>e r. ebitda l = Some e \<and> e \<noteq> 0 \<and> revenue l = Some r \<and> 0 < r
                  \<longrightarrow> ebitda_margin orm = Some (of_int e / of_int r)) \<and>
         (\<forall>p e. price l = Some p \<and> p \<noteq> 0 \<and> ebitda l = Some e \<and> 0 < e
                  \<longrightarrow> asking_multiple orm = Some (of_int p / of_int e)) \<and>
         (get_by_id db (listing_id l) = Inr None \<longrightarrow>
            (\<not> (\<exists>e r. ebitda l = Some e \<and> e \<noteq> 0 \<and> revenue l = Some r \<and> 0 < r)
               \<longrightarrow> ebitda_margin orm = None) \<and>
            (\<not> (\<exists>p e. price l = Some p \<and> p \<noteq> 0 \<and> ebitda l = Some e \<and> 0 < e)
               \<longrightarrow> asking_multiple orm = None))"
proof -
  from save_result [OF assms]
  have mem: "orm \<in> set db' \<and> listing_id orm = listing_id l"
    and cases: "get_by_id db (listing_id l) = Inr None \<and>
            ebitda_margin orm = calc_ebitda_margin l \<and>
            asking_multiple orm = calc_asking_multiple l \<or>
          (\<exists>existing. get_by_id db (listing_id l) = Inr (Some existing) \<and>
            (orm, db') = update now db existing l)"
    by blast+
  from cases show ?thesis
  proof
    assume c: "get_by_id db (listing_id l) = Inr None \<and>
            ebitda_margin orm = calc_ebitda_margin l \<and>
            asking_multiple orm = calc_asking_multiple l"
    with mem show ?thesis
      by (auto simp: calc_ebitda_margin_def calc_asking_multiple_def split: option.splits)
  next
    assume "\<exists>existing. get_by_id db (listing_id l) = Inr (Some existing) \<and>
            (orm, db') = update now db existing l"
    then obtain existing where g: "get_by_id db (listing_id l) = Inr (Some existing)"
      and u: "update now db existing l = (orm, db')" by auto
    from update_result [OF u] g mem show ?thesis
      by (auto simp: calc_ebitda_margin_def calc_asking_multiple_def split: option.splits)
  qed
qed

theorem derived_metrics_on_save_witness:
  "\<exists>orm db'. save 5 [bizbuysell_row] healthy_listing = Inr (orm, db') \<and> orm \<in> set db' \<and>
     ebitda_margin orm = Some (1 / 4) \<and> asking_multiple orm = Some 3"
proof -
  obtain orm db' where s: "save 5 [bizbuysell_row] healthy_listing = Inr (orm, db')"
    by (simp add: save_def get_by_id_def scalar_one_or_none_def bizbuysell_row_def
        healthy_listing_def create_def db_add_def Let_def)
  from derived_metrics_on_save [OF s] show ?thesis
    using s by (simp add: healthy_listing_def)
qed

text \<open>
  C2 as stated fails: a created listing with \<^verbatim>\<open>revenue = 100\<close> and \<^verbatim>\<open>ebitda = 0\<close> has
  its revenue positive and its ebitda set, and is stored without a margin.
\<close>

theorem zero_ebitda_margin_absent:
  "create 5 [] flat_listing = Inr (flat_row, [flat_row]) \<and>
   revenue flat_listing = Some 100 \<and> ebitda flat_listing = Some 0 \<and>
   ebitda_margin flat_row = None"
  by (simp add: create_def db_add_def flat_listing_def flat_row_def calc_ebitda_margin_def
      calc_asking_multiple_def Let_def)

section \<open>Deduplication\<close>

lemma exists_listing_distinct:
  assumes "distinct (map listing_id db)"
  shows "exists_listing db k s =
           Inr (case find (\<lambda>r. listing_id r = k) db of None \<Rightarrow> False | Some r \<Rightarrow> source r = s)"
proof -
  have "filter (\<lambda>r. listing_id r = k \<and> source r = s) db =
        filter (\<lambda>r. source r = s) (filter (\<lambda>r. listing_id r = k) db)"
    by (simp add: conj_commute)
  then show ?thesis
    using assms
    by (simp add: exists_listing_def filter_id_distinct scalar_one_or_none_def
        split: option.splits)
qed

lemma find_id_mem:
  "distinct (map listing_id db) \<Longrightarrow> r \<in> set db \<Longrightarrow>
   find (\<lambda>x. listing_id x = listing_id r) db = Some r"
proof (induction db)
  case Nil
  then show ?case by simp
next
  case (Cons a db)
  then show ?case by (cases "a = r") force+
qed

lemma db_commit_ids: "map listing_id (db_commit db orm) = map listing_id db"
  by (induction db) (auto simp: db_commit_def)

text \<open>
  C9: \<^verbatim>\<open>exists\<close> matches on id and source, \<^verbatim>\<open>save\<close> looks up by id alone. So for a
  listing whose id is that of a stored row from another source, \<^verbatim>\<open>exists\<close> finds
  nothing under the listing's source, \<^verbatim>\<open>save_with_dedup_check\<close> returns
  \<^verbatim>\<open>is_new = True\<close>, the other source's row is overwritten with the listing's fields
  (its source column stays), and no second row is created.
\<close>

theorem cross_source_overwrite:
  assumes "distinct (map listing_id db)" and "r \<in> set db"
    and "listing_id r = listing_id l" and "source r \<noteq> source l"
  shows "exists_listing db (listing_id l) (source l) = Inr False \<and>
         exists_listing db (listing_id l) (source r) = Inr True \<and>
         get_by_id db (listing_id l) = Inr (Some r) \<and>
         (\<exists>orm db'. save_with_dedup_check now db l = Inr ((orm, True), db') \<and>
            db' = map (\<lambda>x. if listing_id x = listing_id l then orm else x) db \<and>
            map listing_id db' = map listing_id db \<and>
            orm \<in> set db' \<and>
            source orm = source r \<and> title orm = title l \<and>
            description orm = description l \<and> price orm = price l \<and>
            revenue orm = revenue l \<and> ebitda orm = ebitda l \<and>
            location orm = location l \<and> industry orm = industry l \<and>
            url orm = url l \<and> posted_date orm = posted_date l \<and>
            raw_data orm = raw_data l)"
proof -
  from assms(1,2) have f: "find (\<lambda>x. listing_id x = listing_id l) db = Some r"
    using find_id_mem [of db r] assms(3) by simp
  from assms(1) f assms(4) have e1: "exists_listing db (listing_id l) (source l) = Inr False"
    by (simp add: exists_listing_distinct)
  from assms(1) f have e2: "exists_listing db (listing_id l) (source r) = Inr True"
    by (simp add: exists_listing_distinct)
  from assms(1) f have g: "get_by_id db (listing_id l) = Inr (Some r)"
    by (simp add: get_by_id_distinct)
  obtain orm db' where u: "update now db r l = (orm, db')" by (cases "update now db r l")
  note ur = update_result [OF u]
  from ur assms(3) have id: "listing_id orm = listing_id l" by simp
  from ur id have db': "db' = map (\<lambda>x. if listing_id x = listing_id l then orm else x) db"
    by (simp add: db_commit_def)
  have s: "save_with_dedup_check now db l = Inr ((orm, True), db')"
    by (simp add: save_with_dedup_check_def e1 save_def g u)
  from ur id have ids: "map listing_id db' = map listing_id db"
    by (simp add: db_commit_ids)
  from ur assms(2,3) have mem: "orm \<in> set db'"
    using db_commit_mem [of r db orm] by simp
  from e1 e2 g s db' ids mem ur show ?thesis by simp
qed

theorem cross_source_overwrite_witness:
  "distinct (map listing_id [bizbuysell_row]) \<and> bizbuysell_row \<in> set [bizbuysell_row] \<and>
   listing_id bizbuysell_row = listing_id seek_listing \<and> source bizbuysell_row \<noteq> source seek_listing \<and>
   exists_listing [bizbuysell_row] ''12345'' ''seek'' = Inr False \<and>
   exists_listing [bizbuysell_row] ''12345'' ''bizbuysell'' = Inr True \<and>
   get_by_id [bizbuysell_row] ''12345'' = Inr (Some bizbuysell_row) \<and>
   (\<exists>orm db'. save_with_dedup_check 9 [bizbuysell_row] seek_listing = Inr ((orm, True), db') \<and>
      db' = [orm] \<and> source orm = ''bizbuysell'' \<and> title orm = ''Accounting Practice'' \<and>
      price orm = Some 300000)"
proof -
  have h: "distinct (map listing_id [bizbuysell_row])" "bizbuysell_row \<in> set [bizbuysell_row]"
    "listing_id bizbuysell_row = listing_id seek_listing" "source bizbuysell_row \<noteq> source seek_listing"
    by (simp_all add: bizbuysell_row_def seek_listing_def)
  have v: "listing_id bizbuysell_row = ''12345''" "source bizbuysell_row = ''bizbuysell''"
    "listing_id seek_listing = ''12345''" "source seek_listing = ''seek''"
    "title seek_listing = ''Accounting Practice''" "price seek_listing = Some 300000"
    by (simp_all add: bizbuysell_row_def seek_listing_def)
  from cross_source_overwrite [OF h, of 9] h show ?thesis
    unfolding v by auto
qed

text \<open>
  C1: two calls of \<^verbatim>\<open>save_with_dedup_check\<close> in succession, on a store whose row with
  the listing's id came from another source: one row is left, and both calls return
  \<^verbatim>\<open>is_new = True\<close>.
\<close>

theorem upsert_twice_cross_source:
  "upsert_twice 1 2 [bizbuysell_row] seek_listing = Inr (True, True, [overwritten_row 2])"
  by (simp add: upsert_twice_def save_with_dedup_check_def exists_listing_def save_def
      get_by_id_def scalar_one_or_none_def update_def db_commit_def bizbuysell_row_def
      seek_listing_def overwritten_row_def calc_ebitda_margin_def calc_asking_multiple_def
      Let_def)

text \<open>An update under a failing guard leaves the old derived value in the row.\<close>

lemma update_keeps_stale_margin:
  "ebitda seek_listing = None \<and>
   ebitda_margin (fst (update 9 [bizbuysell_row] bizbuysell_row seek_listing)) = Some (1 / 4)"
  by (simp add: update_def db_commit_def bizbuysell_row_def seek_listing_def
      calc_ebitda_margin_def calc_asking_multiple_def Let_def)

section \<open>The eligibility filter\<close>

lemma industry_loop_rank: "industry_loop es ind = Some r \<Longrightarrow> reason_rank r = 1"
  by (induction es) (auto split: if_splits)

lemma title_loop_rank: "title_loop ks al t_low i_low = Some r \<Longrightarrow> reason_rank r = 2"
  by (induction ks) (auto split: if_splits)

lemma price_check_cases:
  "price_check f l v = v \<or> (\<exists>r. reason_rank r = 0 \<and> price_check f l v = (False, snd v @ [r]))"
  by (auto simp: price_check_def fail_with_def split: option.splits)

lemma industry_check_cases:
  "industry_check f l v = v \<or>
   (\<exists>r. reason_rank r = 1 \<and> industry_check f l v = (False, snd v @ [r]))"
  by (auto simp: industry_check_def fail_with_def dest: industry_loop_rank
      split: option.splits list.splits)

lemma title_check_cases:
  "title_check f l v = v \<or>
   (\<exists>r. reason_rank r = 2 \<and> title_check f l v = (False, snd v @ [r]))"
  by (auto simp: title_check_def fail_with_def dest: title_loop_rank
      split: option.splits list.splits)

lemma freshness_check_cases:
  "freshness_check now f l v = v \<or>
   (\<exists>r. reason_rank r = 3 \<and> freshness_check now f l v = (False, snd v @ [r]))"
  by (auto simp: freshness_check_def fail_with_def Let_def
      split: option.splits pydatetime.splits)

lemma ordered_below_step:
  assumes "ordered_below k v"
    and "c = v \<or> (\<exists>r. reason_rank r = k \<and> c = (False, snd v @ [r]))"
  shows "ordered_below (Suc k) c"
proof -
  from assms(1) have s: "sorted_wrt (<) (map reason_rank (snd v))"
    and b: "list_all (\<lambda>r. reason_rank r < k) (snd v)" and p: "fst v = (snd v = [])"
    by (simp_all add: ordered_below_def)
  from b have b': "list_all (\<lambda>r. reason_rank r < Suc k) (snd v)"
    by (induction "snd v") (auto simp: list_all_iff)
  from assms(2) show ?thesis
  proof
    assume "c = v"
    with s b' p show ?thesis by (simp add: ordered_below_def)
  next
    assume "\<exists>r. reason_rank r = k \<and> c = (False, snd v @ [r])"
    then obtain r where r: "reason_rank r = k" and c: "c = (False, snd v @ [r])" by blast
    from s b r have "sorted_wrt (<) (map reason_rank (snd v @ [r]))"
      by (auto simp: sorted_wrt_append list_all_iff)
    with b' r c show ?thesis by (simp add: ordered_below_def)
  qed
qed

lemma static_checks_ordered:
  "ordered_below 3 (title_check f l (industry_check f l (price_check f l (True, []))))"
proof -
  have 0: "ordered_below 0 (True, [])" by (simp add: ordered_below_def)
  have 1: "ordered_below 1 (price_check f l (True, []))"
    using ordered_below_step [OF 0 price_check_cases [of f l]] by simp
  have 2: "ordered_below 2 (industry_check f l (price_check f l (True, [])))"
    using ordered_below_step [OF 1 industry_check_cases [of f l]] by (simp add: numeral_2_eq_2)
  show ?thesis
    using ordered_below_step [OF 2 title_check_cases [of f l]] by (simp add: numeral_3_eq_3 numeral_2_eq_2)
qed

lemma evaluate_ordered: "ordered_below 4 (evaluate now f l)"
proof -
  have "ordered_below (Suc 3) (evaluate now f l)"
    unfolding evaluate_def
    by (rule ordered_below_step [OF static_checks_ordered freshness_check_cases])
  then show ?thesis by simp
qed

lemma evaluate_static_part:
  "filter (\<lambda>r. reason_rank r < 3) (snd (evaluate now f l)) =
   snd (title_check f l (industry_check f l (price_check f l (True, []))))"
proof -
  let ?v = "title_check f l (industry_check f l (price_check f l (True, [])))"
  from static_checks_ordered [of f l]
  have "list_all (\<lambda>r. reason_rank r < 3) (snd ?v)" by (simp add: ordered_below_def)
  then have keep: "filter (\<lambda>r. reason_rank r < 3) (snd ?v) = snd ?v"
    by (simp add: list_all_iff)
  from freshness_check_cases [of now f l ?v] keep show ?thesis
    by (auto simp: evaluate_def)
qed

text \<open>
  C3, as the code has it: \<^verbatim>\<open>evaluate\<close> is a function of the listing, the
  configuration and the reading of the clock. The price, industry and title reasons do not
  depend on the clock; the reasons always come in the order price, industry, title,
  freshness, each at most once; and \<^verbatim>\<open>passes\<close> holds exactly when there is no reason.
\<close>

theorem evaluate_clock_and_order:
  "filter (\<lambda>r. reason_rank r < 3) (snd (evaluate now f l)) =
     filter (\<lambda>r. reason_rank r < 3) (snd (evaluate now' f l)) \<and>
   sorted_wrt (<) (map reason_rank (snd (evaluate now f l))) \<and>
   fst (evaluate now f l) = (snd (evaluate now f l) = [])"
  using evaluate_ordered [of now f l]
  by (simp add: evaluate_static_part ordered_below_def)

theorem evaluate_clock_and_order_witness:
  "snd (evaluate (100 * usec_per_day) default_ListingFilter
          (aged_listing\<lparr> price := Some 1200000 \<rparr>)) =
     [PriceExceeds 1200000 1000000, ListedTooLong 100 60] \<and>
   filter (\<lambda>r. reason_rank r < 3)
     (snd (evaluate (100 * usec_per_day) default_ListingFilter
             (aged_listing\<lparr> price := Some 1200000 \<rparr>))) =
   filter (\<lambda>r. reason_rank r < 3)
     (snd (evaluate 0 default_ListingFilter (aged_listing\<lparr> price := Some 1200000 \<rparr>))) \<and>
   sorted_wrt (<) (map reason_rank
     (snd (evaluate (100 * usec_per_day) default_ListingFilter
             (aged_listing\<lparr> price := Some 1200000 \<rparr>))))"
proof -
  have e: "snd (evaluate (100 * usec_per_day) default_ListingFilter
          (aged_listing\<lparr> price := Some 1200000 \<rparr>)) =
     [PriceExceeds 1200000 1000000, ListedTooLong 100 60]"
    by code_simp
  from evaluate_clock_and_order
    [of "100 * usec_per_day" default_ListingFilter "aged_listing\<lparr> price := Some 1200000 \<rparr>" 0]
    e show ?thesis by simp
qed

text \<open>
  C3 as stated fails: the same listing and configuration pass at one reading of the clock
  and fail the freshness check a hundred days later.
\<close>

theorem evaluate_depends_on_clock:
  "evaluate 0 default_ListingFilter aged_listing = (True, []) \<and>
   evaluate (100 * usec_per_day) default_ListingFilter aged_listing =
     (False, [ListedTooLong 100 60])"
  by code_simp

text \<open>
  The scenario of the specification: a price of 1,200,000 against the default ceiling.
\<close>

lemma price_scenario:
  "map render (snd (evaluate 0 default_ListingFilter
      (aged_listing\<lparr> price := Some 1200000, industry := Some ''Plumbing Services'' \<rparr>))) =
   [''Price $1,200,000 exceeds max $1,000,000'']"
proof -
  have "snd (evaluate 0 default_ListingFilter
      (aged_listing\<lparr> price := Some 1200000, industry := Some ''Plumbing Services'' \<rparr>)) =
      [PriceExceeds 1200000 1000000]"
    by code_simp
  then show ?thesis by (simp add: fmt_commas_def digit_char_def)
qed

text \<open>
  The title check gives a reason exactly when some excluded keyword occurs in the
  lowercased title and is not the forgiven \<^verbatim>\<open>franchise\<close>.
\<close>

lemma title_loop_fails_iff:
  "title_loop ks al t_low i_low \<noteq> None \<longleftrightarrow>
   list_ex (\<lambda>k. contains t_low (lower k) \<and>
                \<not> (lower k = ''franchise'' \<and> list_ex (\<lambda>a. contains i_low a) al)) ks"
  by (induction ks) auto

lemma franchise_legal_passes:
  "title_check default_ListingFilter (franchise_listing ''Legal Services'') (True, []) = (True, [])"
  by code_simp

lemma franchise_retail_fails:
  "title_check default_ListingFilter (franchise_listing ''Retail'') (True, []) =
     (False, [TitleContains ''franchise''])"
  by code_simp

text \<open>
  C5: the allowed industries are matched as configured, without \<^verbatim>\<open>lower()\<close>. With the
  allowed industry \<^verbatim>\<open>Legal\<close>, a franchise title in industry \<^verbatim>\<open>Legal Services\<close> is
  not forgiven, although the industry contains the allowed entry when case is ignored.
\<close>

theorem franchise_allowed_case_sensitive:
  "franchise_allowed_industries capitalised_filter = Some [''Legal''] \<and>
   contains (lower ''Legal Services'') (lower ''Legal'') \<and>
   title_check capitalised_filter (franchise_listing ''Legal Services'') (True, []) =
     (False, [TitleContains ''franchise''])"
  by code_simp

section \<open>The filtering pass\<close>

lemma row_of_db_commit:
  "row_of (db_commit db orm) j =
     (case row_of db j of
        None \<Rightarrow> None
      | Some x \<Rightarrow> if j = listing_id orm then Some orm else Some x)"
  by (induction db) (auto simp: row_of_def db_commit_def)

lemma row_of_mem:
  "distinct (map listing_id db) \<Longrightarrow> r \<in> set db \<Longrightarrow> row_of db (listing_id r) = Some r"
  by (simp add: row_of_def find_id_mem)

lemma row_of_None: "k \<notin> listing_id ` set db \<Longrightarrow> row_of db k = None"
  by (auto simp: row_of_def find_None_iff)

lemma row_of_Some_id: "row_of db k = Some x \<Longrightarrow> listing_id x = k \<and> x \<in> set db"
  by (auto simp: row_of_def find_Some_iff)

lemma get_by_id_row_of:
  "distinct (map listing_id db) \<Longrightarrow> get_by_id db k = Inr (row_of db k)"
  by (simp add: get_by_id_distinct row_of_def)

lemma not_sold_empty: "contains (lower t) ''sold'' \<Longrightarrow> t \<noteq> []"
  by (auto simp: lower_def)

lemma model_validate_fields:
  "listing_id (model_validate r) = listing_id r" "title (model_validate r) = title r"
  by (simp_all add: model_validate_def BusinessListing.truncate_def)

lemma update_status_row:
  assumes "distinct (map listing_id db)" and "row_of db k = Some x"
  shows "\<exists>db'. update_status now db k st None = Inr db' \<and>
           map listing_id db' = map listing_id db \<and>
           (\<forall>j. j \<noteq> k \<longrightarrow> row_of db' j = row_of db j) \<and>
           row_of db' k =
             Some (if status x \<noteq> st then x\<lparr> status := st, last_updated_at := now \<rparr>
                   else x\<lparr> status := st \<rparr>)"
proof -
  let ?x' = "if status x \<noteq> st then x\<lparr> status := st, last_updated_at := now \<rparr>
             else x\<lparr> status := st \<rparr>"
  from assms have u: "update_status now db k st None = Inr (db_commit db ?x')"
    by (simp add: update_status_def get_by_id_row_of Let_def)
  from row_of_Some_id [OF assms(2)] have id: "listing_id ?x' = k" by simp
  have others: "\<forall>j. j \<noteq> k \<longrightarrow> row_of (db_commit db ?x') j = row_of db j"
    using id by (auto simp: row_of_db_commit split: option.splits)
  have self: "row_of (db_commit db ?x') k = Some ?x'"
    using id assms(2) by (simp add: row_of_db_commit)
  from u others self show ?thesis
    by (simp add: db_commit_ids)
qed

lemma save_with_dedup_check_row:
  assumes "distinct (map listing_id db)" and "row_of db (listing_id l) = Some x"
  shows "\<exists>saved db'. save_with_dedup_check now db l = Inr (saved, db') \<and>
           map listing_id db' = map listing_id db \<and>
           (\<forall>j. j \<noteq> listing_id l \<longrightarrow> row_of db' j = row_of db j) \<and>
           row_of db' (listing_id l) \<noteq> None"
proof -
  obtain orm db' where u: "update now db x l = (orm, db')" by (cases "update now db x l")
  note ur = update_result [OF u]
  from row_of_Some_id [OF assms(2)] ur have id: "listing_id orm = listing_id l" by simp
  from assms have g: "get_by_id db (listing_id l) = Inr (Some x)"
    by (simp add: get_by_id_row_of)
  from assms(1) obtain found where e: "exists_listing db (listing_id l) (source l) = Inr found"
    by (simp add: exists_listing_distinct)
  have s: "save_with_dedup_check now db l = Inr ((orm, \<not> found), db')"
    by (simp add: save_with_dedup_check_def e save_def g u)
  from ur have db': "db' = db_commit db orm" by simp
  have others: "\<forall>j. j \<noteq> listing_id l \<longrightarrow> row_of db' j = row_of db j"
    using id db' by (auto simp: row_of_db_commit split: option.splits)
  have self: "row_of db' (listing_id l) \<noteq> None"
    using id db' assms(2) by (simp add: row_of_db_commit)
  from s others self db' show ?thesis by (simp add: db_commit_ids)
qed

lemma process_listing_row:
  assumes "distinct (map listing_id db)" and "row_of db (listing_id l) = Some x"
  shows "\<exists>db'. process_listing now f db l = Inr (evaluate now f l, db') \<and>
           map listing_id db' = map listing_id db \<and>
           (\<forall>j. j \<noteq> listing_id l \<longrightarrow> row_of db' j = row_of db j)"
proof -
  from save_with_dedup_check_row [OF assms, of now] obtain saved db1 where
    s: "save_with_dedup_check now db l = Inr (saved, db1)"
    and ids1: "map listing_id db1 = map listing_id db"
    and others1: "\<forall>j. j \<noteq> listing_id l \<longrightarrow> row_of db1 j = row_of db j"
    and self1: "row_of db1 (listing_id l) \<noteq> None"
    by blast
  from self1 obtain y where y: "row_of db1 (listing_id l) = Some y" by auto
  from assms(1) ids1 have d1: "distinct (map listing_id db1)" by simp
  let ?st = "if fst (evaluate now f l) then PREFILTER_PASS else PREFILTER_FAIL"
  from update_status_row [OF d1 y, of now ?st] obtain db2 where
    u: "update_status now db1 (listing_id l) ?st None = Inr db2"
    and ids2: "map listing_id db2 = map listing_id db1"
    and others2: "\<forall>j. j \<noteq> listing_id l \<longrightarrow> row_of db2 j = row_of db1 j"
    by blast
  have "process_listing now f db l = Inr (evaluate now f l, db2)"
    using s u by (simp add: process_listing_def Let_def)
  with ids1 ids2 others1 others2 show ?thesis by simp
qed

lemma rows_kept:
  assumes "\<forall>r\<in>set rs. row_of db (listing_id r) = Some r \<and> status r = NEW"
    and "k \<notin> listing_id ` set rs"
    and "\<forall>j. j \<noteq> k \<longrightarrow> row_of db1 j = row_of db j"
  shows "\<forall>r\<in>set rs. row_of db1 (listing_id r) = Some r \<and> status r = NEW"
proof
  fix x assume x: "x \<in> set rs"
  with assms(2) have ne: "listing_id x \<noteq> k" by auto
  from assms(1) x have "row_of db (listing_id x) = Some x \<and> status x = NEW" by simp
  with assms(3) ne show "row_of db1 (listing_id x) = Some x \<and> status x = NEW" by simp
qed

lemma filter_loop_sold_step:
  assumes "contains (lower (title r)) ''sold''"
    and "update_status now (fr_db st) (listing_id r) PREFILTER_FAIL None = Inr db1"
  shows "filter_loop now f (r # rs) st =
           filter_loop now f rs (st\<lparr> fr_db := db1, skipped_sold := skipped_sold st + 1 \<rparr>)"
  using assms not_sold_empty [OF assms(1)]
  by (simp add: model_validate_fields Let_def)

lemma filter_loop_eval_step:
  assumes "\<not> contains (lower (title r)) ''sold''"
    and "process_listing now f (fr_db st) (model_validate r) = Inr (v, db1)"
  shows "filter_loop now f (r # rs) st =
           filter_loop now f rs
             (st\<lparr> fr_db := db1,
                  passed := (if fst v then passed st + 1 else passed st),
                  failed := (if fst v then failed st else failed st + 1),
                  evaluated := evaluated st @ [(listing_id r, v)] \<rparr>)"
  using assms by (simp add: model_validate_fields Let_def)

lemma filter_loop_rows:
  assumes "distinct (map listing_id (fr_db st))"
    and "distinct (map listing_id rs)"
    and "\<forall>r\<in>set rs. row_of (fr_db st) (listing_id r) = Some r \<and> status r = NEW"
  shows "\<exists>st'. filter_loop now f rs st = Inr st' \<and>
           map listing_id (fr_db st') = map listing_id (fr_db st) \<and>
           (\<forall>j. j \<notin> listing_id ` set rs \<longrightarrow> row_of (fr_db st') j = row_of (fr_db st) j) \<and>
           (\<forall>r\<in>set rs. is_sold r \<longrightarrow>
              row_of (fr_db st') (listing_id r) =
                Some (r\<lparr> status := PREFILTER_FAIL, last_updated_at := now \<rparr>)) \<and>
           map fst (evaluated st') =
             map fst (evaluated st) @ map listing_id (filter (\<lambda>r. \<not> is_sold r) rs)"
  using assms
proof (induction rs arbitrary: st)
  case Nil
  then show ?case by simp
next
  case (Cons r rs)
  let ?k = "listing_id r"
  from Cons.prems(3) have here: "row_of (fr_db st) ?k = Some r" and new: "status r = NEW"
    by simp_all
  from Cons.prems(3) have rest: "\<forall>x\<in>set rs. row_of (fr_db st) (listing_id x) = Some x \<and> status x = NEW"
    by simp
  from Cons.prems(2) have fresh: "?k \<notin> listing_id ` set rs" and drs: "distinct (map listing_id rs)"
    by auto
  have "\<exists>st1. filter_loop now f (r # rs) st = filter_loop now f rs st1 \<and>
          map listing_id (fr_db st1) = map listing_id (fr_db st) \<and>
          (\<forall>j. j \<noteq> ?k \<longrightarrow> row_of (fr_db st1) j = row_of (fr_db st) j) \<and>
          (is_sold r \<longrightarrow> row_of (fr_db st1) ?k =
             Some (r\<lparr> status := PREFILTER_FAIL, last_updated_at := now \<rparr>)) \<and>
          map fst (evaluated st1) =
            map fst (evaluated st) @ map listing_id (filter (\<lambda>r. \<not> is_sold r) [r])"
  proof (cases "is_sold r")
    case True
    from update_status_row [OF Cons.prems(1) here, of now PREFILTER_FAIL] obtain db1 where
      u: "update_status now (fr_db st) ?k PREFILTER_FAIL None = Inr db1"
      and ids1: "map listing_id db1 = map listing_id (fr_db st)"
      and others1: "\<forall>j. j \<noteq> ?k \<longrightarrow> row_of db1 j = row_of (fr_db st) j"
      and self0: "row_of db1 ?k =
             Some (if status r \<noteq> PREFILTER_FAIL
                   then r\<lparr> status := PREFILTER_FAIL, last_updated_at := now \<rparr>
                   else r\<lparr> status := PREFILTER_FAIL \<rparr>)"
      by blast
    from self0 new have self1:
      "row_of db1 ?k = Some (r\<lparr> status := PREFILTER_FAIL, last_updated_at := now \<rparr>)"
      by simp
    from True have t: "contains (lower (title r)) ''sold''" by (simp add: is_sold_def)
    let ?st1 = "st\<lparr> fr_db := db1, skipped_sold := skipped_sold st + 1 \<rparr>"
    have "filter_loop now f (r # rs) st = filter_loop now f rs ?st1"
      by (rule filter_loop_sold_step [OF t u])
    moreover have "map listing_id (fr_db ?st1) = map listing_id (fr_db st)" using ids1 by simp
    moreover have "\<forall>j. j \<noteq> ?k \<longrightarrow> row_of (fr_db ?st1) j = row_of (fr_db st) j"
      using others1 by simp
    moreover have "row_of (fr_db ?st1) ?k =
             Some (r\<lparr> status := PREFILTER_FAIL, last_updated_at := now \<rparr>)"
      using self1 by simp
    moreover have "map fst (evaluated ?st1) =
            map fst (evaluated st) @ map listing_id (filter (\<lambda>r. \<not> is_sold r) [r])"
      using True by simp
    ultimately show ?thesis by blast
  next
    case False
    have lid: "listing_id (model_validate r) = ?k" by (simp add: model_validate_fields)
    from here lid have here': "row_of (fr_db st) (listing_id (model_validate r)) = Some r"
      by simp
    from process_listing_row [OF Cons.prems(1) here', of now f] obtain db1 where
      u: "process_listing now f (fr_db st) (model_validate r) =
            Inr (evaluate now f (model_validate r), db1)"
      and ids1: "map listing_id db1 = map listing_id (fr_db st)"
      and others0: "\<forall>j. j \<noteq> listing_id (model_validate r) \<longrightarrow>
                      row_of db1 j = row_of (fr_db st) j"
      by blast
    from others0 lid have others1: "\<forall>j. j \<noteq> ?k \<longrightarrow> row_of db1 j = row_of (fr_db st) j"
      by simp
    from False have t: "\<not> contains (lower (title r)) ''sold''" by (simp add: is_sold_def)
    let ?v = "evaluate now f (model_validate r)"
    let ?st1 = "st\<lparr> fr_db := db1,
                    passed := (if fst ?v then passed st + 1 else passed st),
                    failed := (if fst ?v then failed st else failed st + 1),
                    evaluated := evaluated st @ [(?k, ?v)] \<rparr>"
    have "filter_loop now f (r # rs) st = filter_loop now f rs ?st1"
      by (rule filter_loop_eval_step [OF t u])
    moreover have "map listing_id (fr_db ?st1) = map listing_id (fr_db st)" using ids1 by simp
    moreover have "\<forall>j. j \<noteq> ?k \<longrightarrow> row_of (fr_db ?st1) j = row_of (fr_db st) j"
      using others1 by simp
    moreover have "map fst (evaluated ?st1) =
            map fst (evaluated st) @ map listing_id (filter (\<lambda>r. \<not> is_sold r) [r])"
      using False by simp
    ultimately show ?thesis using False by blast
  qed
  then obtain st1 where
    step: "filter_loop now f (r # rs) st = filter_loop now f rs st1"
    and ids1: "map listing_id (fr_db st1) = map listing_id (fr_db st)"
    and others1: "\<forall>j. j \<noteq> ?k \<longrightarrow> row_of (fr_db st1) j = row_of (fr_db st) j"
    and self1: "is_sold r \<longrightarrow> row_of (fr_db st1) ?k =
             Some (r\<lparr> status := PREFILTER_FAIL, last_updated_at := now \<rparr>)"
    and log1: "map fst (evaluated st1) =
            map fst (evaluated st) @ map listing_id (filter (\<lambda>r. \<not> is_sold r) [r])"
    by blast
  have p1: "distinct (map listing_id (fr_db st1))" using ids1 Cons.prems(1) by simp
  have p3: "\<forall>x\<in>set rs. row_of (fr_db st1) (listing_id x) = Some x \<and> status x = NEW"
    by (rule rows_kept [OF rest fresh others1])
  from Cons.IH [OF p1 drs p3] obtain st' where
    l: "filter_loop now f rs st1 = Inr st'"
    and ids: "map listing_id (fr_db st') = map listing_id (fr_db st1)"
    and others: "\<forall>j. j \<notin> listing_id ` set rs \<longrightarrow> row_of (fr_db st') j = row_of (fr_db st1) j"
    and sold: "\<forall>x\<in>set rs. is_sold x \<longrightarrow>
            row_of (fr_db st') (listing_id x) =
              Some (x\<lparr> status := PREFILTER_FAIL, last_updated_at := now \<rparr>)"
    and log: "map fst (evaluated st') =
           map fst (evaluated st1) @ map listing_id (filter (\<lambda>r. \<not> is_sold r) rs)"
    by blast
  have run: "filter_loop now f (r # rs) st = Inr st'" using step l by simp
  have a: "map listing_id (fr_db st') = map listing_id (fr_db st)" using ids ids1 by simp
  have b: "\<forall>j. j \<notin> listing_id ` set (r # rs) \<longrightarrow> row_of (fr_db st') j = row_of (fr_db st) j"
  proof (intro allI impI)
    fix j assume j: "j \<notin> listing_id ` set (r # rs)"
    then have "j \<noteq> ?k" and "j \<notin> listing_id ` set rs" by auto
    with others others1 show "row_of (fr_db st') j = row_of (fr_db st) j" by simp
  qed
  have c: "\<forall>x\<in>set (r # rs). is_sold x \<longrightarrow>
            row_of (fr_db st') (listing_id x) =
              Some (x\<lparr> status := PREFILTER_FAIL, last_updated_at := now \<rparr>)"
  proof (intro ballI impI)
    fix x assume x: "x \<in> set (r # rs)" and sx: "is_sold x"
    show "row_of (fr_db st') (listing_id x) =
              Some (x\<lparr> status := PREFILTER_FAIL, last_updated_at := now \<rparr>)"
    proof (cases "x = r")
      case True
      from others fresh have "row_of (fr_db st') ?k = row_of (fr_db st1) ?k" by simp
      with self1 sx True show ?thesis by simp
    next
      case False
      with x have "x \<in> set rs" by simp
      with sold sx show ?thesis by simp
    qed
  qed
  have d: "map fst (evaluated st') =
           map fst (evaluated st) @ map listing_id (filter (\<lambda>r. \<not> is_sold r) (r # rs))"
    using log log1 by simp
  from run a b c d show ?case by blast
qed

lemma filter_loop_sold:
  assumes "distinct (map listing_id db)"
    and "distinct (map listing_id rs)"
    and "\<forall>x\<in>set rs. row_of db (listing_id x) = Some x \<and> status x = NEW"
    and "r \<in> set rs" and "contains (lower (title r)) ''sold''"
  shows "\<exists>st'. filter_loop now f rs
                 \<lparr> fr_db = db, passed = 0, failed = 0, skipped_sold = 0, evaluated = [] \<rparr> = Inr st' \<and>
           get_by_id (fr_db st') (listing_id r) =
             Inr (Some (r\<lparr> status := PREFILTER_FAIL, last_updated_at := now \<rparr>)) \<and>
           listing_id r \<notin> fst ` set (evaluated st')"
proof -
  let ?st = "\<lparr> fr_db = db, passed = 0, failed = 0, skipped_sold = 0, evaluated = [] \<rparr>"
  have p1: "distinct (map listing_id (fr_db ?st))" using assms(1) by simp
  have p3: "\<forall>x\<in>set rs. row_of (fr_db ?st) (listing_id x) = Some x \<and> status x = NEW"
    using assms(3) by simp
  from filter_loop_rows [OF p1 assms(2) p3, of now f] obtain st' where
    l: "filter_loop now f rs ?st = Inr st'"
    and ids: "map listing_id (fr_db st') = map listing_id (fr_db ?st)"
    and sold: "\<forall>x\<in>set rs. is_sold x \<longrightarrow>
            row_of (fr_db st') (listing_id x) =
              Some (x\<lparr> status := PREFILTER_FAIL, last_updated_at := now \<rparr>)"
    and log: "map fst (evaluated st') =
           map fst (evaluated ?st) @ map listing_id (filter (\<lambda>r. \<not> is_sold r) rs)"
    by blast
  from assms(5) have s: "is_sold r" by (simp add: is_sold_def)
  from ids assms(1) have d': "distinct (map listing_id (fr_db st'))" by simp
  from sold assms(4) s have row:
    "row_of (fr_db st') (listing_id r) =
       Some (r\<lparr> status := PREFILTER_FAIL, last_updated_at := now \<rparr>)" by simp
  have g: "get_by_id (fr_db st') (listing_id r) =
             Inr (Some (r\<lparr> status := PREFILTER_FAIL, last_updated_at := now \<rparr>))"
    using row by (simp add: get_by_id_row_of [OF d'])
  have notin: "listing_id r \<notin> fst ` set (evaluated st')"
  proof
    assume "listing_id r \<in> fst ` set (evaluated st')"
    then have "listing_id r \<in> set (map fst (evaluated st'))" by simp
    with log have "listing_id r \<in> listing_id ` set (filter (\<lambda>r. \<not> is_sold r) rs)" by simp
    then obtain x where x: "x \<in> set rs" "\<not> is_sold x" "listing_id x = listing_id r" by auto
    from assms(3) x(1) have rx: "row_of db (listing_id x) = Some x" by simp
    from assms(3,4) have rr: "row_of db (listing_id r) = Some r" by simp
    from rx rr x(3) have "x = r" by (metis option.inject)
    with x(2) s show False by simp
  qed
  from l g notin show ?thesis by blast
qed

text \<open>
  C4: a stored listing whose title contains \<^verbatim>\<open>sold\<close>, in any letter case, and which
  the filtering pass visits (status \<^verbatim>\<open>new\<close> for \<^verbatim>\<open>filter_command\<close>, every row for
  \<^verbatim>\<open>reset_and_filter\<close>) ends the pass with status \<^verbatim>\<open>prefilter_fail\<close>; nothing else
  of its row changes but \<^verbatim>\<open>last_updated_at\<close>, and \<^verbatim>\<open>process_listing\<close>, hence
  \<^verbatim>\<open>evaluate\<close>, is never called for it, so no reason is computed. Price, industry and
  the other fields are arbitrary.
\<close>

theorem sold_short_circuit:
  assumes "distinct (map listing_id db)" and "r \<in> set db"
    and "contains (lower (title r)) ''sold''"
  shows "(status r = NEW \<longrightarrow>
           (\<exists>st'. filter_command now max_price_arg db = Inr st' \<and>
              get_by_id (fr_db st') (listing_id r) =
                Inr (Some (r\<lparr> status := PREFILTER_FAIL, last_updated_at := now \<rparr>)) \<and>
              listing_id r \<notin> fst ` set (evaluated st'))) \<and>
         (\<exists>st'. reset_and_filter now db = Inr st' \<and>
            get_by_id (fr_db st') (listing_id r) =
              Inr (Some (r\<lparr> status := PREFILTER_FAIL, last_updated_at := now \<rparr>)) \<and>
            listing_id r \<notin> fst ` set (evaluated st'))"
proof
  show "status r = NEW \<longrightarrow>
           (\<exists>st'. filter_command now max_price_arg db = Inr st' \<and>
              get_by_id (fr_db st') (listing_id r) =
                Inr (Some (r\<lparr> status := PREFILTER_FAIL, last_updated_at := now \<rparr>)) \<and>
              listing_id r \<notin> fst ` set (evaluated st'))"
  proof
    assume new: "status r = NEW"
    let ?rs = "filter (\<lambda>x. status x = NEW) db"
    have d2: "distinct (map listing_id ?rs)" using assms(1) by (simp add: distinct_map_filter)
    have p3: "\<forall>x\<in>set ?rs. row_of db (listing_id x) = Some x \<and> status x = NEW"
      using assms(1) by (simp add: row_of_mem)
    have m: "r \<in> set ?rs" using assms(2) new by simp
    from filter_loop_sold [OF assms(1) d2 p3 m assms(3), of now]
    show "\<exists>st'. filter_command now max_price_arg db = Inr st' \<and>
              get_by_id (fr_db st') (listing_id r) =
                Inr (Some (r\<lparr> status := PREFILTER_FAIL, last_updated_at := now \<rparr>)) \<and>
              listing_id r \<notin> fst ` set (evaluated st')"
      by (simp add: filter_command_def get_by_status_def)
  qed
next
  let ?reset = "\<lambda>x. x\<lparr> status := NEW, last_updated_at := now \<rparr>"
  let ?db0 = "map ?reset db"
  have ids0: "map listing_id ?db0 = map listing_id db" by simp
  have d0: "distinct (map listing_id ?db0)" using assms(1) by (simp add: comp_def)
  have all_new: "filter (\<lambda>x. status x = NEW) ?db0 = ?db0" by (simp add: filter_map comp_def)
  have p3: "\<forall>x\<in>set ?db0. row_of ?db0 (listing_id x) = Some x \<and> status x = NEW"
    using d0 by (auto simp: row_of_mem simp del: map_map)
  have m: "?reset r \<in> set ?db0" using assms(2) by simp
  have t: "contains (lower (title (?reset r))) ''sold''" using assms(3) by simp
  from filter_loop_sold [OF d0 d0 p3 m t, of now default_ListingFilter]
  show "\<exists>st'. reset_and_filter now db = Inr st' \<and>
            get_by_id (fr_db st') (listing_id r) =
              Inr (Some (r\<lparr> status := PREFILTER_FAIL, last_updated_at := now \<rparr>)) \<and>
            listing_id r \<notin> fst ` set (evaluated st')"
    by (simp add: reset_and_filter_def get_by_status_def all_new Let_def)
qed

theorem sold_short_circuit_witness:
  "distinct (map listing_id [sold_row, bizbuysell_row]) \<and> sold_row \<in> set [sold_row, bizbuysell_row] \<and>
   contains (lower (title sold_row)) ''sold'' \<and> status sold_row = NEW \<and>
   (\<exists>st'. filter_command 3 1000000 [sold_row, bizbuysell_row] = Inr st' \<and>
      get_by_id (fr_db st') ''seek_9'' =
        Inr (Some (sold_row\<lparr> status := PREFILTER_FAIL, last_updated_at := 3 \<rparr>)) \<and>
      ''seek_9'' \<notin> fst ` set (evaluated st'))"
proof -
  have h1: "distinct (map listing_id [sold_row, bizbuysell_row])"
    by (simp add: sold_row_def bizbuysell_row_def)
  have h2: "sold_row \<in> set [sold_row, bizbuysell_row]" by simp
  have h3: "contains (lower (title sold_row)) ''sold''"
    by (simp add: sold_row_def lower_def lower_char_def)
  have h4: "status sold_row = NEW" by (simp add: sold_row_def)
  have k: "listing_id sold_row = ''seek_9''" by (simp add: sold_row_def)
  from sold_short_circuit [OF h1 h2 h3, of 3 1000000] h4 k
  have "\<exists>st'. filter_command 3 1000000 [sold_row, bizbuysell_row] = Inr st' \<and>
      get_by_id (fr_db st') ''seek_9'' =
        Inr (Some (sold_row\<lparr> status := PREFILTER_FAIL, last_updated_at := 3 \<rparr>)) \<and>
      ''seek_9'' \<notin> fst ` set (evaluated st')"
    by simp
  with h1 h2 h3 h4 show ?thesis by blast
qed

section \<open>The fetch orchestrator: search pages\<close>

lemma list_attempts_returns: "\<exists>els. fst (list_attempts w u a left st) = Inr els"
proof (induction left arbitrary: a st)
  case 0
  show ?case by simp
next
  case (Suc left)
  show ?case
  proof (cases "list_nav w (list_navs st)")
    case (Inl e)
    with Suc show ?thesis by (simp add: Let_def)
  next
    case (Inr els)
    with Suc show ?thesis by (cases els) (simp_all add: Let_def)
  qed
qed

lemma fetch_list_page_returns: "fetch_list_page w u st \<noteq> (Inl e, st')"
  using list_attempts_returns [of w u 1 3 st]
  by (auto simp: fetch_list_page_def)

lemma page_loop_no_exception:
  "page_loop fuel w u count fd known st = Some (raised, st') \<Longrightarrow> raised = None"
proof (induction fuel arbitrary: st)
  case 0
  then show ?case by (simp split: if_splits)
next
  case (Suc fuel)
  show ?case
  proof (cases "fetched st < count")
    case False
    with Suc.prems show ?thesis by simp
  next
    case True
    obtain r st1 where f: "fetch_list_page w (u @ ''&pg='' @ str_nat (page_num st)) st = (r, st1)"
      by (cases "fetch_list_page w (u @ ''&pg='' @ str_nat (page_num st)) st")
    show ?thesis
    proof (cases r)
      case (Inl e)
      with f fetch_list_page_returns show ?thesis by blast
    next
      case (Inr els)
      show ?thesis
      proof (cases els)
        case Nil
        with Suc.prems True f Inr show ?thesis by simp
      next
        case (Cons el rest)
        with Suc.prems True f Inr show ?thesis
          by (auto simp: Let_def dest: Suc.IH)
      qed
    qed
  qed
qed

lemma list_attempts_exhausted:
  assumes "page_fails (list_nav w (list_navs st))"
    and "page_fails (list_nav w (list_navs st + 1))"
    and "page_fails (list_nav w (list_navs st + 2))"
  shows "fetch_list_page w u st =
           (Inr [], st\<lparr> list_navs := list_navs st + 3,
                        trace := trace st @ [Goto u, Sleep 3 5, Goto u, Sleep 6 8, Goto u] \<rparr>)"
proof -
  have fail: "\<And>r a b. page_fails r \<Longrightarrow>
     (case r of Inl e \<Rightarrow> b | Inr [] \<Rightarrow> b | Inr (el # els) \<Rightarrow> a el els) = b"
    by (auto simp: page_fails_def split: sum.splits list.splits)
  show ?thesis
    using assms
    by (simp add: fetch_list_page_def numeral_3_eq_3 Let_def fail log_events_def)
qed

text \<open>
  C6, as the code has it: there is no \<^verbatim>\<open>SourceUnreachable\<close>, and no page-load failure
  raises to the caller of \<^verbatim>\<open>fetch\<close>. When the very first search page cannot be loaded
  on any of its three attempts, \<^verbatim>\<open>fetch\<close> returns normally, having yielded nothing
  and closed context and browser. The same holds at any later page: three failed attempts
  end the loop over the pages without an exception, and what was yielded stays.
\<close>

theorem page_failure_never_raises:
  "(fetch fuel w loc radius_km count fetch_details known_ids self = Some (raised, st')
      \<longrightarrow> raised = None) \<and>
   (0 < count \<and>
    page_fails (list_nav w (list_navs self)) \<and>
    page_fails (list_nav w (list_navs self + 1)) \<and>
    page_fails (list_nav w (list_navs self + 2))
      \<longrightarrow> (\<exists>st. fetch (Suc fuel) w loc radius_km count fetch_details known_ids self
                   = Some (None, st) \<and>
                 yielded st = yielded self \<and> fetched st = 0 \<and>
                 list_navs st = list_navs self + 3 \<and> detail_navs st = detail_navs self \<and>
                 \<not> context_open st \<and> \<not> browser_open st)) \<and>
   (fetched st0 < count \<and>
    page_fails (list_nav w (list_navs st0)) \<and>
    page_fails (list_nav w (list_navs st0 + 1)) \<and>
    page_fails (list_nav w (list_navs st0 + 2))
      \<longrightarrow> (\<exists>st. page_loop (Suc fuel) w search_url count fetch_details known_ids st0
                   = Some (None, st) \<and>
                 yielded st = yielded st0 \<and> fetched st = fetched st0 \<and>
                 list_navs st = list_navs st0 + 3 \<and> detail_navs st = detail_navs st0))"
proof (intro conjI impI)
  assume "fetch fuel w loc radius_km count fetch_details known_ids self = Some (raised, st')"
  then obtain st1 where
    "page_loop fuel w (build_search_url loc radius_km) count fetch_details known_ids
       ((get_context_and_page self)\<lparr> fetched := 0, page_num := 1, skipped := 0 \<rparr>)
     = Some (raised, st1)"
    by (auto simp: fetch_def Let_def split: option.splits)
  then show "raised = None" by (rule page_loop_no_exception)
next
  assume a: "0 < count \<and>
    page_fails (list_nav w (list_navs self)) \<and>
    page_fails (list_nav w (list_navs self + 1)) \<and>
    page_fails (list_nav w (list_navs self + 2))"
  let ?st0 = "(get_context_and_page self)\<lparr> fetched := 0, page_num := 1, skipped := 0 \<rparr>"
  have n0: "list_navs ?st0 = list_navs self"
    by (simp add: get_context_and_page_def init_browser_def log_events_def)
  let ?u = "build_search_url loc radius_km @ ''&pg='' @ str_nat (page_num ?st0)"
  from a n0 have
    "fetch_list_page w ?u ?st0 =
       (Inr [], ?st0\<lparr> list_navs := list_navs ?st0 + 3,
                      trace := trace ?st0 @ [Goto ?u, Sleep 3 5, Goto ?u, Sleep 6 8, Goto ?u] \<rparr>)"
    by (intro list_attempts_exhausted) simp_all
  with a show "\<exists>st. fetch (Suc fuel) w loc radius_km count fetch_details known_ids self
                   = Some (None, st) \<and>
                 yielded st = yielded self \<and> fetched st = 0 \<and>
                 list_navs st = list_navs self + 3 \<and> detail_navs st = detail_navs self \<and>
                 \<not> context_open st \<and> \<not> browser_open st"
    by (simp add: fetch_def Let_def get_context_and_page_def init_browser_def log_events_def
        close_context_def close_browser_def)
next
  assume a: "fetched st0 < count \<and>
    page_fails (list_nav w (list_navs st0)) \<and>
    page_fails (list_nav w (list_navs st0 + 1)) \<and>
    page_fails (list_nav w (list_navs st0 + 2))"
  let ?u = "search_url @ ''&pg='' @ str_nat (page_num st0)"
  from a have
    "fetch_list_page w ?u st0 =
       (Inr [], st0\<lparr> list_navs := list_navs st0 + 3,
                     trace := trace st0 @ [Goto ?u, Sleep 3 5, Goto ?u, Sleep 6 8, Goto ?u] \<rparr>)"
    by (intro list_attempts_exhausted) simp_all
  with a show "\<exists>st. page_loop (Suc fuel) w search_url count fetch_details known_ids st0
                   = Some (None, st) \<and>
                 yielded st = yielded st0 \<and> fetched st = fetched st0 \<and>
                 list_navs st = list_navs st0 + 3 \<and> detail_navs st = detail_navs st0"
    by simp
qed

theorem page_failure_never_raises_witness:
  "(0::int) < 20 \<and>
   page_fails (list_nav unreachable_world (list_navs new_fetcher)) \<and>
   page_fails (list_nav unreachable_world (list_navs new_fetcher + 1)) \<and>
   page_fails (list_nav unreachable_world (list_navs new_fetcher + 2)) \<and>
   (\<exists>st. fetch (Suc 0) unreachable_world ''sunshine-coast-qld'' 50 20 True {} new_fetcher
            = Some (None, st) \<and>
          yielded st = [] \<and> list_navs st = 3 \<and> \<not> context_open st \<and> \<not> browser_open st)"
proof -
  have h: "(0::int) < 20 \<and>
   page_fails (list_nav unreachable_world (list_navs new_fetcher)) \<and>
   page_fails (list_nav unreachable_world (list_navs new_fetcher + 1)) \<and>
   page_fails (list_nav unreachable_world (list_navs new_fetcher + 2))"
    by (simp add: new_fetcher_def unreachable_world_def page_fails_def)
  have v: "yielded new_fetcher = []" "list_navs new_fetcher = 0"
    by (simp_all add: new_fetcher_def)
  note t = page_failure_never_raises
    [where fuel = 0 and w = unreachable_world and loc = "''sunshine-coast-qld''"
       and radius_km = 50 and count = 20 and fetch_details = True and known_ids = "{}"
       and self = new_fetcher, THEN conjunct2, THEN conjunct1]
  from t h v
  have "\<exists>st. fetch (Suc 0) unreachable_world ''sunshine-coast-qld'' 50 20 True {} new_fetcher
            = Some (None, st) \<and>
          yielded st = [] \<and> list_navs st = 3 \<and> \<not> context_open st \<and> \<not> browser_open st"
    by auto
  with h show ?thesis by blast
qed

text \<open>
  C6 as stated fails: on a site where every load times out, the first search page is tried
  three times and \<^verbatim>\<open>fetch\<close> returns without raising anything.
\<close>

theorem first_page_failure_returns_normally:
  "map_option fst
     (fetch 1 unreachable_world ''sunshine-coast-qld'' 50 20 True {} new_fetcher) = Some None \<and>
   map_option (yielded \<circ> snd)
     (fetch 1 unreachable_world ''sunshine-coast-qld'' 50 20 True {} new_fetcher) = Some [] \<and>
   map_option (list_navs \<circ> snd)
     (fetch 1 unreachable_world ''sunshine-coast-qld'' 50 20 True {} new_fetcher) = Some 3"
  by (simp add: fetch_def new_fetcher_def unreachable_world_def fetch_list_page_def
      get_context_and_page_def init_browser_def log_events_def close_context_def
      close_browser_def numeral_3_eq_3 Let_def)

section \<open>The fetch orchestrator: detail pages and the failure counter\<close>



lemma fetch_detail_page_all_fail:
  assumes "isl (detail_nav w (detail_navs st))"
    and "isl (detail_nav w (detail_navs st + 1))"
    and "isl (detail_nav w (detail_navs st + 2))"
  shows "fetch_detail_page w u st =
           (Some (None, None, None, None, []),
            st\<lparr> detail_navs := detail_navs st + 3,
                trace := trace st @ [Sleep 1 3, Goto u, Sleep 3 5, Sleep 1 3, Goto u, Sleep 6 8,
                                     Sleep 1 3, Goto u] \<rparr>)"
proof -
  have fail: "\<And>r a b. isl r \<Longrightarrow> (case r of Inl e \<Rightarrow> b | Inr d \<Rightarrow> a d) = b"
    by (auto split: sum.splits)
  show ?thesis
    using assms
    by (simp add: fetch_detail_page_def numeral_3_eq_3 Let_def fail log_events_def)
qed

text \<open>
  C7: for a card that is neither sold nor known, with details requested, when the detail
  page raises on each of its three attempts, nothing is raised: the loop yields the listing
  built from the summary alone, with no description and \<^verbatim>\<open>detail_fetched\<close> false in
  its raw data, counts it as fetched, and goes on with the next card.
\<close>

theorem detail_failure_yields_summary:
  assumes "\<not> contains (lower (b_title info)) ''sold''" and "b_id info \<notin> known_ids"
    and "b_url info \<noteq> []" and "fetched st < count"
    and "isl (detail_nav w (detail_navs st))"
    and "isl (detail_nav w (detail_navs st + 1))"
    and "isl (detail_nav w (detail_navs st + 2))"
  shows "element_loop w count True known_ids (Some info # rest) st =
           element_loop w count True known_ids rest
             (process_element w True known_ids (Some info) st) \<and>
         yielded (process_element w True known_ids (Some info) st) =
           yielded st @ [summary_listing info] \<and>
         fetched (process_element w True known_ids (Some info) st) = fetched st + 1 \<and>
         skipped (process_element w True known_ids (Some info) st) = skipped st \<and>
         detail_navs (process_element w True known_ids (Some info) st) = detail_navs st + 3"
proof -
  note d = fetch_detail_page_all_fail [OF assms(5,6,7), of "b_url info"]
  have loop: "element_loop w count True known_ids (Some info # rest) st =
           element_loop w count True known_ids rest
             (process_element w True known_ids (Some info) st)"
    using assms(4) by simp
  have step: "process_element w True known_ids (Some info) st =
      track_and_yield info (None, None, None, None, []) True
        (st\<lparr> detail_navs := detail_navs st + 3,
             trace := trace st @ [Sleep 1 3, Goto (b_url info), Sleep 3 5, Sleep 1 3,
                                  Goto (b_url info), Sleep 6 8, Sleep 1 3, Goto (b_url info)] \<rparr>)"
    using assms(1,2,3) by (simp add: process_element_def d Let_def)
  show ?thesis
    unfolding step [symmetric] loop
    unfolding step
    by (simp add: track_and_yield_def summary_listing_def Let_def log_events_def
        get_context_and_page_def close_context_def init_browser_def opt_str_def)
qed

theorem detail_failure_yields_summary_witness:
  "\<not> contains (lower (b_title (card_info ''1''))) ''sold'' \<and> b_id (card_info ''1'') \<notin> {} \<and>
   b_url (card_info ''1'') \<noteq> [] \<and> fetched new_fetcher < 20 \<and>
   isl (detail_nav two_page_world (detail_navs new_fetcher)) \<and>
   isl (detail_nav two_page_world (detail_navs new_fetcher + 1)) \<and>
   isl (detail_nav two_page_world (detail_navs new_fetcher + 2)) \<and>
   yielded (process_element two_page_world True {} (Some (card_info ''1'')) new_fetcher) =
     [summary_listing (card_info ''1'')] \<and>
   element_loop two_page_world 20 True {} [Some (card_info ''1''), None] new_fetcher =
     element_loop two_page_world 20 True {} [None]
       (process_element two_page_world True {} (Some (card_info ''1'')) new_fetcher)"
proof -
  have h: "\<not> contains (lower (b_title (card_info ''1''))) ''sold''"
    "b_id (card_info ''1'') \<notin> {}" "b_url (card_info ''1'') \<noteq> []"
    "fetched new_fetcher < 20"
    "isl (detail_nav two_page_world (detail_navs new_fetcher))"
    "isl (detail_nav two_page_world (detail_navs new_fetcher + 1))"
    "isl (detail_nav two_page_world (detail_navs new_fetcher + 2))"
    by (simp_all add: card_info_def new_fetcher_def two_page_world_def lower_def lower_char_def)
  have y: "yielded new_fetcher = []" by (simp add: new_fetcher_def)
  from detail_failure_yields_summary [OF h, of "[None]"] h y show ?thesis by simp
qed

















section \<open>Two ingestions in succession\<close>

lemma row_of_append:
  "row_of (db @ [orm]) k =
     (case row_of db k of
        None \<Rightarrow> if listing_id orm = k then Some orm else None
      | Some x \<Rightarrow> Some x)"
  by (induction db) (auto simp: row_of_def)

lemma row_of_None_iff: "row_of db k = None \<longleftrightarrow> k \<notin> listing_id ` set db"
  by (auto simp: row_of_def find_None_iff)

lemma exists_listing_row_of:
  "distinct (map listing_id db) \<Longrightarrow>
   exists_listing db k s = Inr (case row_of db k of None \<Rightarrow> False | Some r \<Rightarrow> source r = s)"
  by (simp add: exists_listing_distinct row_of_def)

lemma one_row_with_id:
  "distinct (map listing_id db) \<Longrightarrow> row_of db k = Some x \<Longrightarrow>
   filter (\<lambda>r. listing_id r = k) db = [x]"
  by (simp add: filter_id_distinct row_of_def)

lemma save_with_dedup_check_keyed:
  assumes "distinct (map listing_id db)"
  shows "\<exists>orm db'.
           save_with_dedup_check now db l =
             Inr ((orm, case row_of db (listing_id l) of
                          None \<Rightarrow> True | Some r \<Rightarrow> source r \<noteq> source l), db') \<and>
           distinct (map listing_id db') \<and>
           row_of db' (listing_id l) = Some orm \<and>
           source orm = (case row_of db (listing_id l) of
                           None \<Rightarrow> source l | Some r \<Rightarrow> source r)"
proof (cases "row_of db (listing_id l)")
  case None
  then have fresh: "listing_id l \<notin> listing_id ` set db" by (simp add: row_of_None_iff)
  from assms None have e: "exists_listing db (listing_id l) (source l) = Inr False"
    by (simp add: exists_listing_row_of)
  from assms None have g: "get_by_id db (listing_id l) = Inr None"
    by (simp add: get_by_id_row_of)
  obtain orm where c: "create now db l = Inr (orm, db @ [orm])"
    and id: "listing_id orm = listing_id l" and src: "source orm = source l"
    using fresh by (simp add: create_def db_add_def Let_def)
  have s: "save_with_dedup_check now db l = Inr ((orm, True), db @ [orm])"
    by (simp add: save_with_dedup_check_def e save_def g c)
  have d: "distinct (map listing_id (db @ [orm]))" using assms fresh id by simp
  have r: "row_of (db @ [orm]) (listing_id l) = Some orm"
    using None id by (simp add: row_of_append)
  from s d r src None show ?thesis by simp
next
  case (Some x)
  obtain orm db' where u: "update now db x l = (orm, db')" by (cases "update now db x l")
  note ur = update_result [OF u]
  from row_of_Some_id [OF Some] ur have id: "listing_id orm = listing_id l" by simp
  from assms Some have e:
    "exists_listing db (listing_id l) (source l) = Inr (source x = source l)"
    by (simp add: exists_listing_row_of)
  from assms Some have g: "get_by_id db (listing_id l) = Inr (Some x)"
    by (simp add: get_by_id_row_of)
  have s: "save_with_dedup_check now db l = Inr ((orm, source x \<noteq> source l), db')"
    by (simp add: save_with_dedup_check_def e save_def g u)
  from ur have db': "db' = db_commit db orm" by simp
  have d: "distinct (map listing_id db')" using assms db' by (simp add: db_commit_ids)
  have r: "row_of db' (listing_id l) = Some orm"
    using id db' Some by (simp add: row_of_db_commit)
  from ur have src: "source orm = source x" by simp
  from s d r src Some show ?thesis by simp
qed

text \<open>
  What holds of two ingestions in succession on any table under the primary key: one row
  with the listing's id is left, and the second call returns \<^verbatim>\<open>is_new = True\<close> exactly
  when the table held a row with that id from another source.
\<close>

lemma upsert_twice_keyed:
  assumes "distinct (map listing_id db)"
  shows "\<exists>is_new1 db2.
           upsert_twice now1 now2 db l =
             Inr (is_new1,
                  (case row_of db (listing_id l) of
                     None \<Rightarrow> False | Some r \<Rightarrow> source r \<noteq> source l), db2) \<and>
           distinct (map listing_id db2) \<and>
           length (filter (\<lambda>r. listing_id r = listing_id l) db2) = 1"
proof -
  from save_with_dedup_check_keyed [OF assms, of now1 l] obtain orm1 n1 db1 where
    s1: "save_with_dedup_check now1 db l = Inr ((orm1, n1), db1)"
    and d1: "distinct (map listing_id db1)"
    and r1: "row_of db1 (listing_id l) = Some orm1"
    and src1: "source orm1 = (case row_of db (listing_id l) of
                                None \<Rightarrow> source l | Some r \<Rightarrow> source r)"
    by blast
  from save_with_dedup_check_keyed [OF d1, of now2 l] r1 obtain orm2 db2 where
    s2: "save_with_dedup_check now2 db1 l = Inr ((orm2, source orm1 \<noteq> source l), db2)"
    and d2: "distinct (map listing_id db2)"
    and r2: "row_of db2 (listing_id l) = Some orm2"
    by auto
  have n2: "(source orm1 \<noteq> source l) =
            (case row_of db (listing_id l) of None \<Rightarrow> False | Some r \<Rightarrow> source r \<noteq> source l)"
    using src1 by (simp split: option.splits)
  have "upsert_twice now1 now2 db l = Inr (n1, source orm1 \<noteq> source l, db2)"
    by (simp add: upsert_twice_def s1 s2)
  with n2 d2 one_row_with_id [OF d2 r2] show ?thesis by simp
qed

end
